theory Spec2Isabelle
  imports Main
begin

section \<open>Data model\<close>

text \<open>
  JavaScript values that travel through the node (\<open>IDataObject\<close> and its members).
  Numbers are the integers that a double represents: every number the node handles is
  an identifier, a page number or a count. An object is an association list in
  insertion order. Strings are lists of
  code units below 256 (Latin-1).
\<close>

datatype json =
    JNull
  | JBool bool
  | JNum int
  | JStr string
  | JArr "json list"
  | JObj "(string \<times> json) list"

type_synonym obj = "(string \<times> json) list"

text \<open>\<open>o[k] = v\<close>: an existing key keeps its place, a new key goes last.\<close>

fun set_prop :: "string \<Rightarrow> json \<Rightarrow> obj \<Rightarrow> obj" where
  "set_prop k v [] = [(k, v)]"
| "set_prop k v ((k', v') # ps) =
     (if k' = k then (k, v) # ps else (k', v') # set_prop k v ps)"

text \<open>\<open>v[k]\<close> on a value that is not null; \<open>None\<close> is \<open>undefined\<close>. The keys
  the node reads are no built-in property of a string, an array, a number or a boolean.\<close>

fun get_prop :: "json \<Rightarrow> string \<Rightarrow> json option" where
  "get_prop (JObj ps) k = map_of ps k"
| "get_prop _ k = None"

text \<open>\<open>x ?? undefined\<close>: null and undefined are both nullish.\<close>

fun nullish :: "json option \<Rightarrow> json option" where
  "nullish None = None"
| "nullish (Some JNull) = None"
| "nullish (Some v) = Some v"

text \<open>JavaScript truthiness of a value.\<close>

fun truthy :: "json \<Rightarrow> bool" where
  "truthy JNull = False"
| "truthy (JBool b) = b"
| "truthy (JNum n) = (n \<noteq> 0)"
| "truthy (JStr s) = (s \<noteq> [])"
| "truthy (JArr xs) = True"
| "truthy (JObj ps) = True"

fun truthy_opt :: "json option \<Rightarrow> bool" where
  "truthy_opt None = False"
| "truthy_opt (Some v) = truthy v"

section \<open>Recipient lists\<close>

text \<open>The separators of the regular expression \<open>/[,\n;]/g\<close>.\<close>

definition is_separator :: "char \<Rightarrow> bool" where
  "is_separator c = (c = CHR '','' \<or> c = CHR 0x0A \<or> c = CHR '';'')"

text \<open>What \<open>String.prototype.trim\<close> removes, among the code units below 256:
  TAB, LF, VT, FF, CR, SP and NBSP.\<close>

definition is_whitespace :: "char \<Rightarrow> bool" where
  "is_whitespace c = (of_char c \<in> {9, 10, 11, 12, 13, 32, 160 :: nat})"

text \<open>\<open>String.prototype.split\<close> with a separator class: the empty string gives one
  empty token, and n separators give n + 1 tokens. A character that is no separator
  joins the first token of the rest, which always exists.\<close>

fun split_on :: "(char \<Rightarrow> bool) \<Rightarrow> string \<Rightarrow> string list" where
  "split_on p [] = [[]]"
| "split_on p (c # cs) =
     (if p c then [] # split_on p cs
      else (case split_on p cs of
              t # ts \<Rightarrow> (c # t) # ts
            | [] \<Rightarrow> [[c]]))"

definition trim :: "string \<Rightarrow> string" where
  "trim s = rev (dropWhile is_whitespace (rev (dropWhile is_whitespace s)))"

definition splitRecipientList :: "string \<Rightarrow> string list" where
  "splitRecipientList v =
     filter (\<lambda>entry. length entry > 0) (map trim (split_on is_separator v))"

section \<open>Errors and the request helper\<close>

text \<open>
  The two errors the node raises, each with its message and the index of the item it
  came from. The message of a \<open>NodeApiError\<close> is the one the host derives from the
  transport failure it wraps.
\<close>

datatype error =
    NodeOperationError (message: string) (itemIndex: nat)
  | NodeApiError (message: string) (itemIndex: nat)

record http_request_options =
  http_method :: string
  baseURL :: string
  url :: string
  json_flag :: bool
  body :: "obj option"
  qs :: "obj option"

text \<open>
  The provider, seen from the node: the requests sent so far and the request at hand
  decide the answer, a failure message (any non-success) or the decoded JSON object.
  The history of requests is the only state there is.
\<close>

type_synonym history = "http_request_options list"
type_synonym server = "history \<Rightarrow> http_request_options \<Rightarrow> string + obj"

definition LETTR_BASE_URL :: string where
  "LETTR_BASE_URL = ''https://app.lettr.com/api''"

definition getResponseData :: "obj \<Rightarrow> json" where
  "getResponseData response =
     (case nullish (map_of response ''data'') of None \<Rightarrow> JObj [] | Some d \<Rightarrow> d)"

definition getResponseList :: "obj \<Rightarrow> string \<Rightarrow> json list" where
  "getResponseList response key =
     (case get_prop (getResponseData response) key of
        Some (JArr vs) \<Rightarrow> vs
      | _ \<Rightarrow> [])"

definition getPagination :: "obj \<Rightarrow> json" where
  "getPagination response =
     (case nullish (get_prop (getResponseData response) ''pagination'') of
        None \<Rightarrow> JObj []
      | Some p \<Rightarrow> p)"

text \<open>An empty body or query object is deleted from the options; the request is
  recorded whether it succeeds or not.\<close>

definition lettrApiRequest ::
  "server \<Rightarrow> string \<Rightarrow> string \<Rightarrow> nat \<Rightarrow> obj \<Rightarrow> obj \<Rightarrow> history \<Rightarrow> (error + obj) \<times> history" where
  "lettrApiRequest srv meth endpoint idx bdy query w =
     (let options = \<lparr> http_method = meth, baseURL = LETTR_BASE_URL, url = endpoint,
                       json_flag = True,
                       body = (if bdy = [] then None else Some bdy),
                       qs = (if query = [] then None else Some query) \<rparr>
      in case srv w options of
           Inl msg \<Rightarrow> (Inl (NodeApiError msg idx), w @ [options])
         | Inr response \<Rightarrow> (Inr response, w @ [options]))"

section \<open>Items and output records\<close>

text \<open>The optional fields of the "Additional Fields" collection, typed as the node's
  property list declares them; \<open>None\<close> is a field the caller did not add.\<close>

record additional_fields =
  ampHtml :: "string option"
  bcc :: "string option"
  campaignId :: "int option"
  cc :: "string option"
  fromName :: "string option"
  metadataJson :: "string option"
  optionsJson :: "string option"
  projectId :: "int option"
  replyTo :: "string option"
  replyToName :: "string option"
  substitutionDataJson :: "string option"
  templateVersion :: "int option"
  attachmentsJson :: "string option"

text \<open>The parameters of one input item as \<open>getNodeParameter\<close> resolves them, defaults
  applied.\<close>

record item =
  resource :: string
  operation :: string
  from_email :: string
  to_input :: string
  subject :: string
  html :: string
  text_body :: string
  templateSlug :: string
  additionalFields :: additional_fields
  requestId :: string
  returnAll :: bool
  simplify :: bool
  limit :: int
  recipients :: string
  fromDate :: string
  toDate :: string
  cursor :: string
  templateProjectId :: int
  templatePage :: int

record node_execution_data =
  json :: json
  pairedItem :: nat

text \<open>\<open>JSON.parse\<close>, with \<open>None\<close> for a syntax error.\<close>

type_synonym json_parser = "string \<Rightarrow> json option"

definition parseOptionalJson :: "json_parser \<Rightarrow> string \<Rightarrow> string \<Rightarrow> nat \<Rightarrow> error + json" where
  "parseOptionalJson parse v fieldName idx =
     (case parse v of
        Some parsed \<Rightarrow> Inr parsed
      | None \<Rightarrow> Inl (NodeOperationError
          ([CHR 0x22] @ fieldName @ [CHR 0x22] @ '' must be valid JSON when provided.'') idx))"

section \<open>Email: send\<close>

text \<open>\<open>if (x) body.k = x\<close> for a string, for a number and for a recipient list.\<close>

definition put_string :: "string \<Rightarrow> string option \<Rightarrow> obj \<Rightarrow> obj" where
  "put_string k v b =
     (case v of Some s \<Rightarrow> (if s \<noteq> [] then set_prop k (JStr s) b else b) | None \<Rightarrow> b)"

definition put_number :: "string \<Rightarrow> int option \<Rightarrow> obj \<Rightarrow> obj" where
  "put_number k v b =
     (case v of Some n \<Rightarrow> (if n \<noteq> 0 then set_prop k (JNum n) b else b) | None \<Rightarrow> b)"

definition put_recipients :: "string \<Rightarrow> string option \<Rightarrow> obj \<Rightarrow> obj" where
  "put_recipients k v b =
     (case v of
        Some s \<Rightarrow> (if s \<noteq> [] then set_prop k (JArr (map JStr (splitRecipientList s))) b else b)
      | None \<Rightarrow> b)"

text \<open>\<open>if (x) body.k = parseOptionalJson(x, ...)\<close>, which may raise.\<close>

definition put_json ::
  "json_parser \<Rightarrow> string \<Rightarrow> string \<Rightarrow> nat \<Rightarrow> string option \<Rightarrow> obj \<Rightarrow> error + obj" where
  "put_json parse k fieldName idx v b =
     (case v of
        Some s \<Rightarrow>
          (if s \<noteq> [] then
             (case parseOptionalJson parse s fieldName idx of
                Inl e \<Rightarrow> Inl e
              | Inr parsed \<Rightarrow> Inr (set_prop k parsed b))
           else Inr b)
      | None \<Rightarrow> Inr b)"

text \<open>The body of \<open>POST /emails\<close>, assembled in the order of the source.\<close>

definition send_body :: "json_parser \<Rightarrow> item \<Rightarrow> string list \<Rightarrow> nat \<Rightarrow> error + obj" where
  "send_body parse p to_list idx =
     (let af = additionalFields p;
          b0 = [(''from'', JStr (from_email p)),
                (''to'', JArr (map JStr to_list)),
                (''subject'', JStr (subject p))];
          b1 = put_string ''html'' (Some (html p)) b0;
          b2 = put_string ''text'' (Some (text_body p)) b1;
          b3 = put_string ''template_slug'' (Some (templateSlug p)) b2;
          b4 = put_string ''from_name'' (fromName af) b3;
          b5 = put_string ''reply_to'' (replyTo af) b4;
          b6 = put_string ''reply_to_name'' (replyToName af) b5;
          b7 = put_string ''amp_html'' (ampHtml af) b6;
          b8 = put_number ''project_id'' (projectId af) b7;
          b9 = put_number ''template_version'' (templateVersion af) b8;
          b10 = put_number ''campaign_id'' (campaignId af) b9;
          b11 = put_recipients ''cc'' (cc af) b10;
          b12 = put_recipients ''bcc'' (bcc af) b11
      in case put_json parse ''metadata'' ''Metadata (JSON)'' idx (metadataJson af) b12 of
           Inl e \<Rightarrow> Inl e
         | Inr b13 \<Rightarrow>
        (case put_json parse ''substitution_data'' ''Substitution Data (JSON)'' idx
                (substitutionDataJson af) b13 of
           Inl e \<Rightarrow> Inl e
         | Inr b14 \<Rightarrow>
        (case put_json parse ''options'' ''Options (JSON)'' idx (optionsJson af) b14 of
           Inl e \<Rightarrow> Inl e
         | Inr b15 \<Rightarrow>
            put_json parse ''attachments'' ''Attachments (JSON)'' idx (attachmentsJson af) b15)))"

definition email_send ::
  "server \<Rightarrow> json_parser \<Rightarrow> item \<Rightarrow> nat \<Rightarrow> history \<Rightarrow> (error + node_execution_data list) \<times> history" where
  "email_send srv parse p idx w =
     (if html p = [] \<and> text_body p = [] \<and> templateSlug p = [] then
        (Inl (NodeOperationError ''Provide at least one of: HTML, Text, or Template Slug.'' idx), w)
      else
        (let to_list = splitRecipientList (to_input p) in
         if length to_list = 0 then
           (Inl (NodeOperationError
              ([CHR 0x22] @ ''To'' @ [CHR 0x22] @ '' must contain at least one valid recipient.'')
              idx), w)
         else
           (case send_body parse p to_list idx of
              Inl e \<Rightarrow> (Inl e, w)
            | Inr b \<Rightarrow>
               (case lettrApiRequest srv ''POST'' ''/emails'' idx b [] w of
                  (Inl e, w') \<Rightarrow> (Inl e, w')
                | (Inr response, w') \<Rightarrow>
                    (Inr [\<lparr> json = JObj response, pairedItem = idx \<rparr>], w')))))"

definition email_get ::
  "server \<Rightarrow> item \<Rightarrow> nat \<Rightarrow> history \<Rightarrow> (error + node_execution_data list) \<times> history" where
  "email_get srv p idx w =
     (case lettrApiRequest srv ''GET'' (''/emails/'' @ requestId p) idx [] [] w of
        (Inl e, w') \<Rightarrow> (Inl e, w')
      | (Inr response, w') \<Rightarrow> (Inr [\<lparr> json = JObj response, pairedItem = idx \<rparr>], w'))"

section \<open>Email: get many\<close>

text \<open>\<open>queryBase\<close>: the filters the caller filled in.\<close>

definition email_queryBase :: "item \<Rightarrow> obj" where
  "email_queryBase p =
     (let q0 = [];
          q1 = (if recipients p \<noteq> [] then set_prop ''recipients'' (JStr (recipients p)) q0 else q0);
          q2 = (if fromDate p \<noteq> [] then set_prop ''from'' (JStr (fromDate p)) q1 else q1)
      in if toDate p \<noteq> [] then set_prop ''to'' (JStr (toDate p)) q2 else q2)"

text \<open>The query of one request of the exhaustive fetch:
  \<open>{...queryBase, per_page: 100}\<close>, then \<open>if (cursor) qs.cursor = cursor\<close>.\<close>

definition email_page_qs :: "obj \<Rightarrow> json option \<Rightarrow> obj" where
  "email_page_qs queryBase cur =
     (let q = set_prop ''per_page'' (JNum 100) queryBase
      in case cur of
           Some c \<Rightarrow> (if truthy c then set_prop ''cursor'' c q else q)
         | None \<Rightarrow> q)"

text \<open>\<open>pagination.next_cursor ?? undefined\<close>.\<close>

definition next_cursor :: "obj \<Rightarrow> json option" where
  "next_cursor response = nullish (get_prop (getPagination response) ''next_cursor'')"

text \<open>
  The \<open>do ... while (cursor)\<close> loop. Nothing bounds the number of rounds, so the loop is
  a partial function: \<open>None\<close> is a run that never returns.
\<close>

partial_function (option) email_fetch_all ::
  "server \<Rightarrow> obj \<Rightarrow> nat \<Rightarrow> json list \<Rightarrow> json option \<Rightarrow> history
     \<Rightarrow> ((error + json list) \<times> history) option" where
  "email_fetch_all srv queryBase idx entries cur w =
     (case lettrApiRequest srv ''GET'' ''/emails'' idx [] (email_page_qs queryBase cur) w of
        (Inl e, w') \<Rightarrow> Some (Inl e, w')
      | (Inr response, w') \<Rightarrow>
          (if truthy_opt (next_cursor response) then
             email_fetch_all srv queryBase idx
               (entries @ getResponseList response ''emails'') (next_cursor response) w'
           else Some (Inr (entries @ getResponseList response ''emails''), w')))"

text \<open>One output record per entry.\<close>

definition records_of :: "nat \<Rightarrow> json list \<Rightarrow> node_execution_data list" where
  "records_of idx entries = map (\<lambda>entry. \<lparr> json = entry, pairedItem = idx \<rparr>) entries"

definition email_getAll ::
  "server \<Rightarrow> item \<Rightarrow> nat \<Rightarrow> history
     \<Rightarrow> ((error + node_execution_data list) \<times> history) option" where
  "email_getAll srv p idx w =
     (let queryBase = email_queryBase p in
      if \<not> returnAll p then
        (let q = set_prop ''per_page'' (JNum (limit p)) queryBase;
             q' = (if cursor p \<noteq> [] then set_prop ''cursor'' (JStr (cursor p)) q else q)
         in case lettrApiRequest srv ''GET'' ''/emails'' idx [] q' w of
              (Inl e, w') \<Rightarrow> Some (Inl e, w')
            | (Inr response, w') \<Rightarrow>
                (if \<not> simplify p then
                   Some (Inr [\<lparr> json = JObj response, pairedItem = idx \<rparr>], w')
                 else Some (Inr (records_of idx (getResponseList response ''emails'')), w')))
      else
        (case email_fetch_all srv queryBase idx []
                (if cursor p \<noteq> [] then Some (JStr (cursor p)) else None) w of
           None \<Rightarrow> None
         | Some (Inl e, w') \<Rightarrow> Some (Inl e, w')
         | Some (Inr entries, w') \<Rightarrow>
             (if \<not> simplify p then
                Some (Inr [\<lparr> json = JObj [(''data'', JObj [(''emails'', JArr entries)])],
                             pairedItem = idx \<rparr>], w')
              else Some (Inr (records_of idx entries), w'))))"

section \<open>Domains and webhooks: get many\<close>

text \<open>\<open>list.slice(0, end)\<close>: a negative end counts from the end of the list.\<close>

definition slice0 :: "'a list \<Rightarrow> int \<Rightarrow> 'a list" where
  "slice0 xs e =
     (if e < 0 then take (nat (int (length xs) + e)) xs else take (nat e) xs)"

text \<open>Decimal digits of an array index, for the keys of a spread array or string.\<close>

function show_nat :: "nat \<Rightarrow> string" where
  "show_nat n =
     (if n < 10 then [char_of (48 + n)]
      else show_nat (n div 10) @ [char_of (48 + n mod 10)])"
  by pat_completeness auto
termination
  by (relation "measure (\<lambda>n. n)") auto

text \<open>\<open>{...v}\<close>: the own enumerable properties of a value that is not null.\<close>

fun spread :: "json \<Rightarrow> obj" where
  "spread (JObj ps) = ps"
| "spread (JArr xs) = zip (map show_nat [0..<length xs]) xs"
| "spread (JStr s) = zip (map show_nat [0..<length s]) (map (\<lambda>c. JStr [c]) s)"
| "spread _ = []"

text \<open>
  The domain and the webhook branch are the same code on another endpoint and list
  key: one request without query, then the cut to \<open>limit\<close> on the fetched list.
\<close>

definition unpaged_getAll ::
  "string \<Rightarrow> string \<Rightarrow> server \<Rightarrow> item \<Rightarrow> nat \<Rightarrow> history
     \<Rightarrow> (error + node_execution_data list) \<times> history" where
  "unpaged_getAll endpoint key srv p idx w =
     (case lettrApiRequest srv ''GET'' endpoint idx [] [] w of
        (Inl e, w') \<Rightarrow> (Inl e, w')
      | (Inr response, w') \<Rightarrow>
          (let lst = getResponseList response key;
               outputList = (if returnAll p then lst else slice0 lst (limit p))
           in if \<not> simplify p then
                (Inr [\<lparr> json = JObj (set_prop ''data''
                          (JObj (set_prop key (JArr outputList) (spread (getResponseData response))))
                          response),
                        pairedItem = idx \<rparr>], w')
              else (Inr (records_of idx outputList), w')))"

definition domain_getAll ::
  "server \<Rightarrow> item \<Rightarrow> nat \<Rightarrow> history \<Rightarrow> (error + node_execution_data list) \<times> history" where
  "domain_getAll = unpaged_getAll ''/domains'' ''domains''"

definition webhook_getAll ::
  "server \<Rightarrow> item \<Rightarrow> nat \<Rightarrow> history \<Rightarrow> (error + node_execution_data list) \<times> history" where
  "webhook_getAll = unpaged_getAll ''/webhooks'' ''webhooks''"

section \<open>Templates: get many\<close>

text \<open>
  \<open>Number(v)\<close>, with \<open>None\<close> for NaN. A number converts to itself; what JavaScript makes of
  any other value (a numeric string, a boolean) is the parameter \<open>coerce\<close>.
\<close>

type_synonym coercion = "json \<Rightarrow> int option"

definition to_Number :: "coercion \<Rightarrow> json \<Rightarrow> int option" where
  "to_Number coerce v = (case v of JNum n \<Rightarrow> Some n | _ \<Rightarrow> coerce v)"

definition template_queryBase :: "item \<Rightarrow> obj" where
  "template_queryBase p =
     (if templateProjectId p > 0 then set_prop ''project_id'' (JNum (templateProjectId p)) [] else [])"

text \<open>\<open>{...queryBase, per_page: 100, page}\<close>.\<close>

definition template_page_qs :: "obj \<Rightarrow> int \<Rightarrow> obj" where
  "template_page_qs queryBase page =
     set_prop ''page'' (JNum page) (set_prop ''per_page'' (JNum 100) queryBase)"

text \<open>\<open>Number(pagination.current_page ?? page)\<close> and
  \<open>Number(pagination.last_page ?? currentPage)\<close>.\<close>

definition currentPage_of :: "coercion \<Rightarrow> obj \<Rightarrow> int \<Rightarrow> int option" where
  "currentPage_of coerce response page =
     (case nullish (get_prop (getPagination response) ''current_page'') of
        None \<Rightarrow> Some page
      | Some v \<Rightarrow> to_Number coerce v)"

definition lastPage_of :: "coercion \<Rightarrow> obj \<Rightarrow> int \<Rightarrow> int option" where
  "lastPage_of coerce response page =
     (case nullish (get_prop (getPagination response) ''last_page'') of
        None \<Rightarrow> currentPage_of coerce response page
      | Some v \<Rightarrow> to_Number coerce v)"

text \<open>\<open>currentPage < lastPage\<close>; a comparison with NaN is false.\<close>

definition hasMore_of :: "coercion \<Rightarrow> obj \<Rightarrow> int \<Rightarrow> bool" where
  "hasMore_of coerce response page =
     (case (currentPage_of coerce response page, lastPage_of coerce response page) of
        (Some c, Some l) \<Rightarrow> c < l
      | _ \<Rightarrow> False)"

text \<open>The number of binary digits of a positive integer.\<close>

function bit_length :: "int \<Rightarrow> nat" where
  "bit_length n = (if n \<le> 0 then 0 else Suc (bit_length (n div 2)))"
  by pat_completeness auto
termination
  by (relation "measure nat") auto

declare bit_length.simps [simp del]

text \<open>
  The double nearest to an integer, as an integer: up to \<open>2^53\<close> every integer is a
  double; beyond that the 53 leading binary digits are kept and the rest is rounded to
  the nearest, a tie going to the even significand. This is what JavaScript's \<open>+\<close> makes
  of the exact sum of two doubles that are integers.
\<close>

definition to_double :: "int \<Rightarrow> int" where
  "to_double x =
     (let a = \<bar>x\<bar> in
      if a \<le> 2 ^ 53 then x
      else
        (let u = 2 ^ (bit_length a - 53);
             q = a div u;
             r = a mod u;
             m = (if 2 * r < u then q
                  else if u < 2 * r then q + 1
                  else if even q then q else q + 1)
         in sgn x * (m * u)))"

text \<open>\<open>page = currentPage + 1\<close>, an addition of doubles, read only when \<open>hasMore\<close> holds,
  where \<open>currentPage\<close> is a number.\<close>

definition next_page :: "coercion \<Rightarrow> obj \<Rightarrow> int \<Rightarrow> int" where
  "next_page coerce response page =
     (case currentPage_of coerce response page of
        Some c \<Rightarrow> to_double (c + 1)
      | None \<Rightarrow> page)"

text \<open>The \<open>while (hasMore)\<close> loop, entered with \<open>hasMore = true\<close>.\<close>

partial_function (option) template_fetch_all ::
  "server \<Rightarrow> coercion \<Rightarrow> obj \<Rightarrow> nat \<Rightarrow> json list \<Rightarrow> int \<Rightarrow> history
     \<Rightarrow> ((error + json list) \<times> history) option" where
  "template_fetch_all srv coerce queryBase idx entries page w =
     (case lettrApiRequest srv ''GET'' ''/templates'' idx [] (template_page_qs queryBase page) w of
        (Inl e, w') \<Rightarrow> Some (Inl e, w')
      | (Inr response, w') \<Rightarrow>
          (if hasMore_of coerce response page then
             template_fetch_all srv coerce queryBase idx
               (entries @ getResponseList response ''templates'')
               (next_page coerce response page) w'
           else Some (Inr (entries @ getResponseList response ''templates''), w')))"

definition template_getAll ::
  "server \<Rightarrow> coercion \<Rightarrow> item \<Rightarrow> nat \<Rightarrow> history
     \<Rightarrow> ((error + node_execution_data list) \<times> history) option" where
  "template_getAll srv coerce p idx w =
     (let queryBase = template_queryBase p in
      if \<not> returnAll p then
        (let q = set_prop ''page'' (JNum (templatePage p))
                   (set_prop ''per_page'' (JNum (limit p)) queryBase)
         in case lettrApiRequest srv ''GET'' ''/templates'' idx [] q w of
              (Inl e, w') \<Rightarrow> Some (Inl e, w')
            | (Inr response, w') \<Rightarrow>
                (if \<not> simplify p then
                   Some (Inr [\<lparr> json = JObj response, pairedItem = idx \<rparr>], w')
                 else Some (Inr (records_of idx (getResponseList response ''templates'')), w')))
      else
        (case template_fetch_all srv coerce queryBase idx [] (max 1 (templatePage p)) w of
           None \<Rightarrow> None
         | Some (Inl e, w') \<Rightarrow> Some (Inl e, w')
         | Some (Inr entries, w') \<Rightarrow>
             (if \<not> simplify p then
                Some (Inr [\<lparr> json = JObj [(''data'', JObj [(''templates'', JArr entries)])],
                             pairedItem = idx \<rparr>], w')
              else Some (Inr (records_of idx entries), w'))))"

section \<open>The item loop\<close>

text \<open>
  The body of the \<open>try\<close> block for one item. The branches exclude each other, and each
  pushes its records only after its last request, so a failing item has pushed nothing.
\<close>

definition process_item ::
  "server \<Rightarrow> json_parser \<Rightarrow> coercion \<Rightarrow> item \<Rightarrow> nat \<Rightarrow> history
     \<Rightarrow> ((error + node_execution_data list) \<times> history) option" where
  "process_item srv parse coerce p idx w =
     (if resource p = ''email'' then
        (if operation p = ''send'' then Some (email_send srv parse p idx w)
         else if operation p = ''get'' then Some (email_get srv p idx w)
         else if operation p = ''getAll'' then email_getAll srv p idx w
         else Some (Inr [], w))
      else if resource p = ''domain'' \<and> operation p = ''getAll'' then
        Some (domain_getAll srv p idx w)
      else if resource p = ''template'' \<and> operation p = ''getAll'' then
        template_getAll srv coerce p idx w
      else if resource p = ''webhook'' \<and> operation p = ''getAll'' then
        Some (webhook_getAll srv p idx w)
      else Some (Inr [], w))"

text \<open>The record the \<open>catch\<close> block pushes when \<open>continueOnFail()\<close> holds.\<close>

definition error_record :: "error \<Rightarrow> nat \<Rightarrow> node_execution_data" where
  "error_record e idx = \<lparr> json = JObj [(''error'', JStr (message e))], pairedItem = idx \<rparr>"

text \<open>The \<open>for\<close> loop over the items, from item \<open>idx\<close> on, with the records pushed so far.\<close>

fun execute_from ::
  "server \<Rightarrow> json_parser \<Rightarrow> coercion \<Rightarrow> bool \<Rightarrow> item list \<Rightarrow> nat
     \<Rightarrow> node_execution_data list \<Rightarrow> history
     \<Rightarrow> ((error + node_execution_data list) \<times> history) option" where
  "execute_from srv parse coerce continueOnFail [] idx returnData w = Some (Inr returnData, w)"
| "execute_from srv parse coerce continueOnFail (p # ps) idx returnData w =
     (case process_item srv parse coerce p idx w of
        None \<Rightarrow> None
      | Some (Inr recs, w') \<Rightarrow>
          execute_from srv parse coerce continueOnFail ps (Suc idx) (returnData @ recs) w'
      | Some (Inl e, w') \<Rightarrow>
          (if continueOnFail then
             execute_from srv parse coerce continueOnFail ps (Suc idx)
               (returnData @ [error_record e idx]) w'
           else Some (Inl e, w')))"

definition execute ::
  "server \<Rightarrow> json_parser \<Rightarrow> coercion \<Rightarrow> bool \<Rightarrow> item list \<Rightarrow> history
     \<Rightarrow> ((error + node_execution_data list) \<times> history) option" where
  "execute srv parse coerce continueOnFail items w =
     execute_from srv parse coerce continueOnFail items 0 [] w"

section \<open>Vocabulary of the properties\<close>

text \<open>A token as a recipient list should yield it: not empty, free of separators, with no
  white space at either end.\<close>

definition clean_token :: "string \<Rightarrow> bool" where
  "clean_token t = (t \<noteq> [] \<and> (\<forall>c\<in>set t. \<not> is_separator c) \<and>
     \<not> is_whitespace (hd t) \<and> \<not> is_whitespace (last t))"

text \<open>White space around a separator that is not itself a separator (a line feed is
  both).\<close>

definition padding :: "string \<Rightarrow> bool" where
  "padding q = (\<forall>c\<in>set q. is_whitespace c \<and> \<not> is_separator c)"

fun join_with :: "string \<Rightarrow> string list \<Rightarrow> string" where
  "join_with sep [] = []"
| "join_with sep [t] = t"
| "join_with sep (t # u # ts) = t @ sep @ join_with sep (u # ts)"

section \<open>Vocabulary of the send properties\<close>

text \<open>A free-text JSON field that is filled in and does not parse.\<close>

definition malformed :: "json_parser \<Rightarrow> string option \<Rightarrow> bool" where
  "malformed parse v = (case v of Some s \<Rightarrow> s \<noteq> [] \<and> parse s = None | None \<Rightarrow> False)"

text \<open>
  The value an optional input puts on the wire, \<open>None\<close> when its guard \<open>if (x)\<close> fails:
  for a string, a number, a recipient list and a JSON text.
\<close>

definition str_val :: "string option \<Rightarrow> json option" where
  "str_val v = (case v of Some s \<Rightarrow> (if s \<noteq> [] then Some (JStr s) else None) | None \<Rightarrow> None)"

definition num_val :: "int option \<Rightarrow> json option" where
  "num_val v = (case v of Some n \<Rightarrow> (if n \<noteq> 0 then Some (JNum n) else None) | None \<Rightarrow> None)"

definition recipients_val :: "string option \<Rightarrow> json option" where
  "recipients_val v =
     (case v of
        Some s \<Rightarrow> (if s \<noteq> [] then Some (JArr (map JStr (splitRecipientList s))) else None)
      | None \<Rightarrow> None)"

definition json_val :: "json_parser \<Rightarrow> string option \<Rightarrow> json option" where
  "json_val parse v = (case v of Some s \<Rightarrow> (if s \<noteq> [] then parse s else None) | None \<Rightarrow> None)"

text \<open>The optional fields of \<open>POST /emails\<close> as a table: wire name and value, in the order
  of the source.\<close>

definition optional_fields :: "json_parser \<Rightarrow> item \<Rightarrow> (string \<times> json option) list" where
  "optional_fields parse p =
     [(''html'', str_val (Some (html p))),
      (''text'', str_val (Some (text_body p))),
      (''template_slug'', str_val (Some (templateSlug p))),
      (''from_name'', str_val (fromName (additionalFields p))),
      (''reply_to'', str_val (replyTo (additionalFields p))),
      (''reply_to_name'', str_val (replyToName (additionalFields p))),
      (''amp_html'', str_val (ampHtml (additionalFields p))),
      (''project_id'', num_val (projectId (additionalFields p))),
      (''template_version'', num_val (templateVersion (additionalFields p))),
      (''campaign_id'', num_val (campaignId (additionalFields p))),
      (''cc'', recipients_val (cc (additionalFields p))),
      (''bcc'', recipients_val (bcc (additionalFields p))),
      (''metadata'', json_val parse (metadataJson (additionalFields p))),
      (''substitution_data'', json_val parse (substitutionDataJson (additionalFields p))),
      (''options'', json_val parse (optionsJson (additionalFields p))),
      (''attachments'', json_val parse (attachmentsJson (additionalFields p)))]"

definition required_fields :: "item \<Rightarrow> obj" where
  "required_fields p =
     [(''from'', JStr (from_email p)),
      (''to'', JArr (map JStr (splitRecipientList (to_input p)))),
      (''subject'', JStr (subject p))]"

text \<open>The entries of a table that have a value.\<close>

fun present :: "(string \<times> json option) list \<Rightarrow> obj" where
  "present [] = []"
| "present ((k, None) # tbl) = present tbl"
| "present ((k, Some v) # tbl) = (k, v) # present tbl"

text \<open>One guarded assignment, and a table of them in turn.\<close>

definition put :: "string \<Rightarrow> json option \<Rightarrow> obj \<Rightarrow> obj" where
  "put k ov b = (case ov of Some x \<Rightarrow> set_prop k x b | None \<Rightarrow> b)"

fun puts :: "(string \<times> json option) list \<Rightarrow> obj \<Rightarrow> obj" where
  "puts [] b = b"
| "puts ((k, ov) # tbl) b = puts tbl (put k ov b)"

text \<open>A send input that passes every validation.\<close>

definition valid_send :: "json_parser \<Rightarrow> item \<Rightarrow> bool" where
  "valid_send parse p =
     ((html p \<noteq> [] \<or> text_body p \<noteq> [] \<or> templateSlug p \<noteq> []) \<and>
      splitRecipientList (to_input p) \<noteq> [] \<and>
      \<not> malformed parse (metadataJson (additionalFields p)) \<and>
      \<not> malformed parse (substitutionDataJson (additionalFields p)) \<and>
      \<not> malformed parse (optionsJson (additionalFields p)) \<and>
      \<not> malformed parse (attachmentsJson (additionalFields p)))"

text \<open>The request a valid send input leads to.\<close>

definition send_request :: "json_parser \<Rightarrow> item \<Rightarrow> http_request_options" where
  "send_request parse p =
     \<lparr> http_method = ''POST'', baseURL = LETTR_BASE_URL, url = ''/emails'', json_flag = True,
       body = Some (required_fields p @ present (optional_fields parse p)), qs = None \<rparr>"

text \<open>The message of \<open>parseOptionalJson\<close>, and the display names it is raised with.\<close>

definition json_error_message :: "string \<Rightarrow> string" where
  "json_error_message fieldName =
     [CHR 0x22] @ fieldName @ [CHR 0x22] @ '' must be valid JSON when provided.''"

definition json_field_names :: "string list" where
  "json_field_names =
     [''Metadata (JSON)'', ''Substitution Data (JSON)'', ''Options (JSON)'', ''Attachments (JSON)'']"

text \<open>Concrete inputs: an item with the defaults of the property list, a provider that
  accepts every request, and a parser that knows the empty object only.\<close>

definition no_fields :: additional_fields where
  "no_fields = \<lparr> ampHtml = None, bcc = None, campaignId = None, cc = None, fromName = None,
     metadataJson = None, optionsJson = None, projectId = None, replyTo = None,
     replyToName = None, substitutionDataJson = None, templateVersion = None,
     attachmentsJson = None \<rparr>"

definition blank_item :: item where
  "blank_item = \<lparr> resource = ''email'', operation = ''send'', from_email = [], to_input = [],
     subject = [], html = [], text_body = [], templateSlug = [], additionalFields = no_fields,
     requestId = [], returnAll = False, simplify = True, limit = 50, recipients = [],
     fromDate = [], toDate = [], cursor = [], templateProjectId = 0, templatePage = 1 \<rparr>"

definition accepting_server :: server where
  "accepting_server h r = Inr [(''message'', JStr ''queued'')]"

definition braces_parser :: json_parser where
  "braces_parser s = (if s = ''{}'' then Some (JObj []) else None)"

definition sample_send :: item where
  "sample_send = blank_item \<lparr> from_email := ''me@x.com'', to_input := ''a@x.com, b@x.com'',
     subject := ''Hi'', html := ''<b>hi</b>'',
     additionalFields := no_fields \<lparr> cc := Some ''c@x.com;d@x.com'', campaignId := Some 7,
       fromName := Some ''Ann'', metadataJson := Some ''{}'', replyTo := Some [],
       projectId := Some 0 \<rparr> \<rparr>"

definition zero_campaign_send :: item where
  "zero_campaign_send = blank_item \<lparr> from_email := ''me@x.com'', to_input := ''a@x.com'',
     subject := ''Hi'', html := ''hi'',
     additionalFields := no_fields \<lparr> campaignId := Some 0 \<rparr> \<rparr>"

section \<open>Vocabulary of the list properties\<close>

text \<open>The one request of a domain or webhook listing: no body and no query.\<close>

definition list_request :: "string \<Rightarrow> http_request_options" where
  "list_request endpoint =
     \<lparr> http_method = ''GET'', baseURL = LETTR_BASE_URL, url = endpoint, json_flag = True,
       body = None, qs = None \<rparr>"

text \<open>The one request of a single-page fetch of emails and of templates.\<close>

definition email_page_request :: "item \<Rightarrow> http_request_options" where
  "email_page_request p =
     \<lparr> http_method = ''GET'', baseURL = LETTR_BASE_URL, url = ''/emails'', json_flag = True,
       body = None,
       qs = Some (let q = set_prop ''per_page'' (JNum (limit p)) (email_queryBase p)
                  in if cursor p \<noteq> [] then set_prop ''cursor'' (JStr (cursor p)) q else q) \<rparr>"

definition template_page_request :: "item \<Rightarrow> http_request_options" where
  "template_page_request p =
     \<lparr> http_method = ''GET'', baseURL = LETTR_BASE_URL, url = ''/templates'', json_flag = True,
       body = None,
       qs = Some (set_prop ''page'' (JNum (templatePage p))
                   (set_prop ''per_page'' (JNum (limit p)) (template_queryBase p))) \<rparr>"

text \<open>What a request does to the result of a branch that returns the records \<open>f response\<close>.\<close>

definition answered ::
  "server \<Rightarrow> history \<Rightarrow> http_request_options \<Rightarrow> nat \<Rightarrow> (obj \<Rightarrow> node_execution_data list)
     \<Rightarrow> (error + node_execution_data list) \<times> history" where
  "answered srv w req idx f =
     ((case srv w req of
         Inl msg \<Rightarrow> Inl (NodeApiError msg idx)
       | Inr response \<Rightarrow> Inr (f response)),
      w @ [req])"

text \<open>Concrete providers: five domains in one answer, and two emails whatever page size
  is asked for.\<close>

definition entry :: "int \<Rightarrow> json" where
  "entry n = JObj [(''id'', JNum n)]"

definition five_item_server :: server where
  "five_item_server h r =
     Inr [(''data'', JObj [(''domains'', JArr [entry 1, entry 2, entry 3, entry 4, entry 5]),
                           (''total'', JNum 5)])]"

definition two_email_server :: server where
  "two_email_server h r = Inr [(''data'', JObj [(''emails'', JArr [entry 1, entry 2])])]"

section \<open>Vocabulary of the pagination properties\<close>

text \<open>One request of the exhaustive email fetch, for the cursor at hand.\<close>

definition emails_request :: "obj \<Rightarrow> json option \<Rightarrow> http_request_options" where
  "emails_request queryBase cur =
     \<lparr> http_method = ''GET'', baseURL = LETTR_BASE_URL, url = ''/emails'', json_flag = True,
       body = None, qs = Some (email_page_qs queryBase cur) \<rparr>"

text \<open>The requests that a run of answers calls for: the first carries the starting cursor,
  each later one the \<open>next_cursor\<close> of the answer before it.\<close>

fun cursor_requests :: "obj \<Rightarrow> json option \<Rightarrow> obj list \<Rightarrow> http_request_options list" where
  "cursor_requests queryBase cur [] = []"
| "cursor_requests queryBase cur (r # rs) =
     emails_request queryBase cur # cursor_requests queryBase (next_cursor r) rs"

text \<open>The provider answers the requests in turn, each with success.\<close>

fun served :: "server \<Rightarrow> history \<Rightarrow> http_request_options list \<Rightarrow> obj list \<Rightarrow> bool" where
  "served srv w [] [] = True"
| "served srv w (q # reqs) (r # rs) = (srv w q = Inr r \<and> served srv (w @ [q]) reqs rs)"
| "served srv w _ _ = False"

text \<open>A run of answers that ends the cursor loop at its last answer and not before: every
  answer but the last carries a truthy \<open>next_cursor\<close>.\<close>

fun cursors_end_at_last :: "obj list \<Rightarrow> bool" where
  "cursors_end_at_last [] = False"
| "cursors_end_at_last [r] = (\<not> truthy_opt (next_cursor r))"
| "cursors_end_at_last (r # rs) = (truthy_opt (next_cursor r) \<and> cursors_end_at_last rs)"

text \<open>An envelope of emails with the cursor of the next page, if any.\<close>

definition emails_page :: "json list \<Rightarrow> string option \<Rightarrow> obj" where
  "emails_page es cur =
     [(''data'', JObj [(''emails'', JArr es),
        (''pagination'',
           JObj (case cur of Some c \<Rightarrow> [(''next_cursor'', JStr c)] | None \<Rightarrow> []))])]"

text \<open>A provider with three pages of emails: cursors on the first two, none on the
  third.\<close>

definition three_page_server :: server where
  "three_page_server h r =
     (case qs r of
        None \<Rightarrow> Inl ''query expected''
      | Some q \<Rightarrow>
          (case map_of q ''cursor'' of
             None \<Rightarrow> Inr (emails_page [entry 1, entry 2] (Some ''c1''))
           | Some c \<Rightarrow>
               (if c = JStr ''c1'' then Inr (emails_page [entry 3, entry 4] (Some ''c2''))
                else if c = JStr ''c2'' then Inr (emails_page [entry 5] None)
                else Inl ''unknown cursor'')))"

text \<open>The starting cursor of the exhaustive email fetch: \<open>startingCursor || undefined\<close>.\<close>

definition starting_cursor :: "item \<Rightarrow> json option" where
  "starting_cursor p = (if cursor p \<noteq> [] then Some (JStr (cursor p)) else None)"

text \<open>The envelope an exhaustive fetch makes up when \<open>simplify\<close> is off.\<close>

definition synthesized_envelope :: "string \<Rightarrow> json list \<Rightarrow> obj" where
  "synthesized_envelope key entries = [(''data'', JObj [(key, JArr entries)])]"

text \<open>Concrete items: one email on a single page, and all emails.\<close>

definition one_email_item :: item where
  "one_email_item = blank_item \<lparr> operation := ''getAll'', limit := 1 \<rparr>"

definition all_emails_item :: item where
  "all_emails_item = blank_item \<lparr> operation := ''getAll'', returnAll := True \<rparr>"

text \<open>One request of the exhaustive template fetch, for the page at hand.\<close>

definition templates_request :: "obj \<Rightarrow> int \<Rightarrow> http_request_options" where
  "templates_request queryBase page =
     \<lparr> http_method = ''GET'', baseURL = LETTR_BASE_URL, url = ''/templates'', json_flag = True,
       body = None, qs = Some (template_page_qs queryBase page) \<rparr>"

text \<open>The requests that a run of answers calls for: the first asks for the starting page,
  each later one for the page after the \<open>current_page\<close> of the answer before it.\<close>

fun page_requests :: "coercion \<Rightarrow> obj \<Rightarrow> int \<Rightarrow> obj list \<Rightarrow> http_request_options list" where
  "page_requests coerce queryBase page [] = []"
| "page_requests coerce queryBase page (r # rs) =
     templates_request queryBase page #
       page_requests coerce queryBase (next_page coerce r page) rs"

text \<open>A run of answers that ends the page loop at its last answer and not before.\<close>

fun pages_end_at_last :: "coercion \<Rightarrow> int \<Rightarrow> obj list \<Rightarrow> bool" where
  "pages_end_at_last coerce page [] = False"
| "pages_end_at_last coerce page [r] = (\<not> hasMore_of coerce r page)"
| "pages_end_at_last coerce page (r # rs) =
     (hasMore_of coerce r page \<and> pages_end_at_last coerce (next_page coerce r page) rs)"

text \<open>An answer that reports \<open>current_page >= last_page\<close>, or that has no \<open>last_page\<close>
  (as when it has no pagination object at all).\<close>

definition stops_paging :: "coercion \<Rightarrow> obj \<Rightarrow> bool" where
  "stops_paging coerce r =
     (case nullish (get_prop (getPagination r) ''last_page'') of
        None \<Rightarrow> True
      | Some l \<Rightarrow>
          (case nullish (get_prop (getPagination r) ''current_page'') of
             None \<Rightarrow> False
           | Some c \<Rightarrow>
               (case (to_Number coerce c, to_Number coerce l) of
                  (Some a, Some b) \<Rightarrow> b \<le> a
                | _ \<Rightarrow> False)))"

text \<open>An envelope of templates that reports its page and the last page.\<close>

definition templates_page :: "json list \<Rightarrow> int \<Rightarrow> int \<Rightarrow> obj" where
  "templates_page ts c l =
     [(''data'', JObj [(''templates'', JArr ts),
        (''pagination'', JObj [(''current_page'', JNum c), (''last_page'', JNum l)])])]"

text \<open>Concrete providers and parameters: three pages of templates, one template each;
  a provider that reports further pages twice and then answers without pagination;
  and a conversion that turns nothing but numbers into numbers.\<close>

definition paged_templates_server :: server where
  "paged_templates_server h r =
     (case qs r of
        None \<Rightarrow> Inl ''query expected''
      | Some q \<Rightarrow>
          (case map_of q ''page'' of
             Some (JNum n) \<Rightarrow>
               (if 1 \<le> n \<and> n \<le> 3 then Inr (templates_page [entry n] n 3)
                else Inl ''no such page'')
           | _ \<Rightarrow> Inl ''page expected''))"

definition settling_server :: server where
  "settling_server h r =
     (if length h < 2 then
        Inr (templates_page [entry (int (length h))] (int (length h) + 1) 5)
      else Inr [(''data'', JObj [(''templates'', JArr [entry 9])])])"

definition no_coercion :: coercion where
  "no_coercion v = None"

section \<open>Vocabulary of the item loop properties\<close>

text \<open>The outcome of every item in turn, whether it failed or not: what the loop sees
  when no failure stops it.\<close>

fun outcomes ::
  "server \<Rightarrow> json_parser \<Rightarrow> coercion \<Rightarrow> item list \<Rightarrow> nat \<Rightarrow> history
     \<Rightarrow> ((error + node_execution_data list) list \<times> history) option" where
  "outcomes srv parse coerce [] idx w = Some ([], w)"
| "outcomes srv parse coerce (p # ps) idx w =
     (case process_item srv parse coerce p idx w of
        None \<Rightarrow> None
      | Some (r, w') \<Rightarrow>
          (case outcomes srv parse coerce ps (Suc idx) w' of
             None \<Rightarrow> None
           | Some (rs, w'') \<Rightarrow> Some (r # rs, w'')))"

text \<open>The records of a batch in failure-tolerant mode: the records of an item that
  succeeded, and for an item that failed the one record \<open>{error: message}\<close> paired to its
  index.\<close>

fun tolerant_output :: "(error + node_execution_data list) list \<Rightarrow> nat \<Rightarrow> node_execution_data list" where
  "tolerant_output [] idx = []"
| "tolerant_output (Inr recs # rs) idx = recs @ tolerant_output rs (Suc idx)"
| "tolerant_output (Inl e # rs) idx =
     \<lparr> json = JObj [(''error'', JStr (message e))], pairedItem = idx \<rparr> #
       tolerant_output rs (Suc idx)"

text \<open>A provider that rejects the first request it sees and accepts the later ones.\<close>

definition failing_once_server :: server where
  "failing_once_server h r =
     (if h = [] then Inl ''Bad request'' else Inr [(''message'', JStr ''queued'')])"

section \<open>Recipient lists: properties\<close>

lemma split_on_ne: "split_on p s \<noteq> []"
  by (induction s) (auto split: list.splits)

lemma concat_split_on: "concat (split_on p s) = filter (\<lambda>c. \<not> p c) s"
proof (induction s)
  case Nil
  show ?case by simp
next
  case (Cons a s)
  obtain t ts where "split_on p s = t # ts"
    using split_on_ne [of p s] by (cases "split_on p s") auto
  with Cons show ?case by auto
qed

lemma split_on_no_sep: "\<forall>t\<in>set (split_on p s). \<forall>c\<in>set t. \<not> p c"
proof (induction s)
  case Nil
  then show ?case by simp
next
  case (Cons a s)
  obtain u us where "split_on p s = u # us"
    using split_on_ne [of p s] by (cases "split_on p s") auto
  with Cons show ?case by auto
qed

lemma split_on_clean: "\<forall>c\<in>set t. \<not> p c \<Longrightarrow> split_on p t = [t]"
  by (induction t) auto

lemma length_split_on: "length (split_on p s) = Suc (length (filter p s))"
  by (induction s) (auto split: list.splits simp: split_on_ne)

lemma split_on_token:
  "\<forall>c\<in>set t. \<not> p c \<Longrightarrow> p s \<Longrightarrow> split_on p (t @ s # r) = t # split_on p r"
  by (induction t) (auto split: list.splits)

lemma trim_subset: "c \<in> set (trim t) \<Longrightarrow> c \<in> set t"
proof -
  assume "c \<in> set (trim t)"
  then have "c \<in> set (dropWhile is_whitespace (rev (dropWhile is_whitespace t)))"
    by (simp add: trim_def)
  then have "c \<in> set (rev (dropWhile is_whitespace t))"
    by (rule set_dropWhileD)
  then have "c \<in> set (dropWhile is_whitespace t)" by simp
  then show ?thesis by (rule set_dropWhileD)
qed

lemma trim_last: "trim t \<noteq> [] \<Longrightarrow> \<not> is_whitespace (last (trim t))"
  unfolding trim_def by (simp add: last_rev hd_dropWhile)

lemma rev_drop_take: "rev (dropWhile P (rev u)) @ rev (takeWhile P (rev u)) = u"
  by (simp only: rev_append [symmetric] takeWhile_dropWhile_id rev_rev_ident)

lemma trim_hd:
  assumes ne: "trim t \<noteq> []"
  shows "\<not> is_whitespace (hd (trim t))"
proof -
  define u where "u = dropWhile is_whitespace t"
  have tr: "trim t = rev (dropWhile is_whitespace (rev u))"
    by (simp add: trim_def u_def)
  have split: "trim t @ rev (takeWhile is_whitespace (rev u)) = u"
    unfolding tr by (rule rev_drop_take)
  from ne have "trim t @ rev (takeWhile is_whitespace (rev u)) \<noteq> []" by simp
  then have "u \<noteq> []" unfolding split .
  then have hu: "\<not> is_whitespace (hd u)"
    unfolding u_def by (rule hd_dropWhile)
  have "hd (trim t @ rev (takeWhile is_whitespace (rev u))) = hd (trim t)"
    using ne by (rule hd_append2)
  then have "hd u = hd (trim t)" unfolding split .
  with hu show ?thesis by simp
qed

lemma filter_dropWhile_not: "filter (\<lambda>c. \<not> P c) (dropWhile P t) = filter (\<lambda>c. \<not> P c) t"
  by (induction t) auto

lemma filter_trim:
  "filter (\<lambda>c. \<not> is_whitespace c) (trim t) = filter (\<lambda>c. \<not> is_whitespace c) t"
proof -
  have "filter (\<lambda>c. \<not> is_whitespace c) (trim t)
      = rev (filter (\<lambda>c. \<not> is_whitespace c)
             (dropWhile is_whitespace (rev (dropWhile is_whitespace t))))"
    by (simp add: trim_def rev_filter)
  also have "\<dots> = rev (filter (\<lambda>c. \<not> is_whitespace c) (rev (dropWhile is_whitespace t)))"
    by (simp only: filter_dropWhile_not)
  also have "\<dots> = filter (\<lambda>c. \<not> is_whitespace c) (dropWhile is_whitespace t)"
    by (simp add: rev_filter)
  also have "\<dots> = filter (\<lambda>c. \<not> is_whitespace c) t"
    by (simp only: filter_dropWhile_not)
  finally show ?thesis .
qed

lemma split_tokens_clean: "\<forall>t\<in>set (splitRecipientList v). clean_token t"
proof
  fix t
  assume "t \<in> set (splitRecipientList v)"
  then obtain u where u: "u \<in> set (split_on is_separator v)" and t: "t = trim u" and ne: "t \<noteq> []"
    by (auto simp: splitRecipientList_def)
  have "\<forall>c\<in>set t. \<not> is_separator c"
    using split_on_no_sep [of is_separator v] u t trim_subset [of _ u] by blast
  moreover have "\<not> is_whitespace (hd t)" using ne t trim_hd [of u] by simp
  moreover have "\<not> is_whitespace (last t)" using ne t trim_last [of u] by simp
  ultimately show "clean_token t" using ne by (simp add: clean_token_def)
qed

lemma filter_concat_tokens:
  "filter (\<lambda>c. \<not> is_whitespace c) (concat (filter (\<lambda>e. length e > 0) (map trim xs)))
     = filter (\<lambda>c. \<not> is_whitespace c) (concat xs)"
proof (induction xs)
  case Nil
  show ?case by simp
next
  case (Cons a xs)
  have "trim a = [] \<Longrightarrow> filter (\<lambda>c. \<not> is_whitespace c) a = []"
    using filter_trim [of a] by simp
  with Cons show ?case by (simp add: filter_trim)
qed

lemma split_keeps_characters:
  "filter (\<lambda>c. \<not> is_whitespace c) (concat (splitRecipientList v))
     = filter (\<lambda>c. \<not> is_separator c \<and> \<not> is_whitespace c) v"
proof -
  have "filter (\<lambda>c. \<not> is_whitespace c) (concat (splitRecipientList v))
      = filter (\<lambda>c. \<not> is_whitespace c) (concat (split_on is_separator v))"
    by (simp only: splitRecipientList_def filter_concat_tokens)
  also have "\<dots> = filter (\<lambda>c. \<not> is_whitespace c) (filter (\<lambda>c. \<not> is_separator c) v)"
    by (simp only: concat_split_on)
  also have "\<dots> = filter (\<lambda>c. \<not> is_separator c \<and> \<not> is_whitespace c) v"
    by (simp add: conj_commute)
  finally show ?thesis .
qed

lemma dropWhile_hd: "t \<noteq> [] \<Longrightarrow> \<not> P (hd t) \<Longrightarrow> dropWhile P t = t"
  by (cases t) auto

lemma dropWhile_all: "\<forall>c\<in>set q. P c \<Longrightarrow> dropWhile P (q @ t) = dropWhile P t"
  by (induction q) auto

lemma trim_padded:
  assumes "clean_token t" "padding q" "padding r"
  shows "trim (q @ t @ r) = t"
proof -
  from assms have t: "t \<noteq> []" "\<not> is_whitespace (hd t)" "\<not> is_whitespace (last t)"
    and q: "\<forall>c\<in>set q. is_whitespace c" and r: "\<forall>c\<in>set (rev r). is_whitespace c"
    by (simp_all add: clean_token_def padding_def)
  have "dropWhile is_whitespace (q @ t @ r) = t @ r"
    using q t by (simp add: dropWhile_all dropWhile_append3 dropWhile_hd)
  moreover have "dropWhile is_whitespace (rev r @ rev t) = rev t"
    using r t by (simp add: dropWhile_all dropWhile_hd hd_rev)
  ultimately show ?thesis by (simp add: trim_def)
qed

lemma split_join_padded:
  assumes s: "is_separator s" and pre: "padding pre" and post: "padding post"
  shows "ts \<noteq> [] \<Longrightarrow> \<forall>t\<in>set ts. clean_token t \<Longrightarrow> padding q \<Longrightarrow>
     splitRecipientList (q @ join_with (pre @ [s] @ post) ts) = ts"
proof (induction ts arbitrary: q)
  case Nil
  then show ?case by simp
next
  case (Cons t ts)
  from Cons.prems have ct: "clean_token t" by simp
  show ?case
  proof (cases ts)
    case Nil
    have nosep: "\<forall>c\<in>set (q @ t). \<not> is_separator c"
      using ct Cons.prems(3) by (auto simp: clean_token_def padding_def)
    have "trim (q @ t @ []) = t"
      using ct Cons.prems(3) by (intro trim_padded) (simp_all add: padding_def)
    then show ?thesis
      using ct Nil by (simp add: splitRecipientList_def split_on_clean [OF nosep] clean_token_def)
  next
    case (Cons u us)
    have nosep: "\<forall>c\<in>set (q @ t @ pre). \<not> is_separator c"
      using ct Cons.prems(3) pre by (auto simp: clean_token_def padding_def)
    have tr: "trim (q @ t @ pre) = t"
      using ct Cons.prems(3) pre by (rule trim_padded)
    have ih: "splitRecipientList (post @ join_with (pre @ [s] @ post) ts) = ts"
      using Cons.IH [of post] Cons.prems(2) post Cons by simp
    have "q @ join_with (pre @ [s] @ post) (t # ts)
        = (q @ t @ pre) @ s # (post @ join_with (pre @ [s] @ post) ts)"
      using Cons by simp
    then have "split_on is_separator (q @ join_with (pre @ [s] @ post) (t # ts))
        = (q @ t @ pre) # split_on is_separator (post @ join_with (pre @ [s] @ post) ts)"
      using split_on_token [OF nosep s] by simp
    then show ?thesis
      using tr ih ct by (simp add: splitRecipientList_def clean_token_def)
  qed
qed

lemma split_join:
  assumes "is_separator s" "padding pre" "padding post" "\<forall>t\<in>set ts. clean_token t"
  shows "splitRecipientList (join_with (pre @ [s] @ post) ts) = ts"
proof (cases ts)
  case Nil
  then show ?thesis by (simp add: splitRecipientList_def trim_def)
next
  case (Cons t us)
  have "padding []" by (simp add: padding_def)
  with split_join_padded [OF assms(1-3), of ts "[]"] assms(4) Cons show ?thesis by simp
qed

text \<open>
  C8. \<open>splitRecipientList\<close> splits on comma, semicolon and line feed, trims each token and
  drops the empty ones. On the input of the specification it gives the four addresses;
  every token it returns is not empty, holds no separator and has no white space at
  either end; apart from separators and white space no character is lost or reordered;
  and a list of such tokens joined by a separator, with or without white space around
  it, is split into the same tokens again.
\<close>

theorem splitRecipientList_splits_trims_drops:
  "splitRecipientList (''a@x.com, b@x.com;c@x.com'' @ [CHR 0x0A] @ ''d@x.com'')
     = [''a@x.com'', ''b@x.com'', ''c@x.com'', ''d@x.com'']
   \<and> (\<forall>t\<in>set (splitRecipientList v). clean_token t)
   \<and> filter (\<lambda>c. \<not> is_whitespace c) (concat (splitRecipientList v))
       = filter (\<lambda>c. \<not> is_separator c \<and> \<not> is_whitespace c) v
   \<and> (is_separator s \<and> padding pre \<and> padding post \<and> (\<forall>t\<in>set ts. clean_token t)
        \<longrightarrow> splitRecipientList (join_with (pre @ [s] @ post) ts) = ts)"
proof (intro conjI impI)
  show "splitRecipientList (''a@x.com, b@x.com;c@x.com'' @ [CHR 0x0A] @ ''d@x.com'')
     = [''a@x.com'', ''b@x.com'', ''c@x.com'', ''d@x.com'']"
    by (simp add: splitRecipientList_def trim_def is_separator_def is_whitespace_def)
  show "\<forall>t\<in>set (splitRecipientList v). clean_token t"
    by (rule split_tokens_clean)
  show "filter (\<lambda>c. \<not> is_whitespace c) (concat (splitRecipientList v))
       = filter (\<lambda>c. \<not> is_separator c \<and> \<not> is_whitespace c) v"
    by (rule split_keeps_characters)
next
  assume "is_separator s \<and> padding pre \<and> padding post \<and> (\<forall>t\<in>set ts. clean_token t)"
  then show "splitRecipientList (join_with (pre @ [s] @ post) ts) = ts"
    by (intro split_join) simp_all
qed

theorem splitRecipientList_splits_trims_drops_witness:
  "''b@x.com'' \<in> set (splitRecipientList '' a@x.com ;; b@x.com,'') \<and> clean_token ''b@x.com''
   \<and> is_separator (CHR '';'') \<and> padding '' '' \<and> padding []
   \<and> clean_token ''a@x.com''
   \<and> splitRecipientList ''a@x.com ;b@x.com'' = [''a@x.com'', ''b@x.com'']"
  using splitRecipientList_splits_trims_drops
    [of "'' a@x.com ;; b@x.com,''" "CHR '';''" "'' ''" "[]" "[''a@x.com'', ''b@x.com'']"]
  by (simp add: splitRecipientList_def trim_def is_separator_def is_whitespace_def
      clean_token_def padding_def)

section \<open>Email send: properties\<close>

lemma set_prop_fresh: "k \<notin> fst ` set b \<Longrightarrow> set_prop k v b = b @ [(k, v)]"
  by (induction b) auto

lemma fst_present: "fst ` set (present tbl) \<subseteq> fst ` set tbl"
  by (induction tbl rule: present.induct) auto

lemma map_of_present:
  "distinct (map fst tbl) \<Longrightarrow> (k, ov) \<in> set tbl \<Longrightarrow> map_of (present tbl) k = ov"
proof (induction tbl rule: present.induct)
  case 1
  then show ?case by simp
next
  case (2 k' tbl)
  have "k' \<notin> fst ` set (present tbl)" using 2(2) fst_present [of tbl] by auto
  then have "map_of (present tbl) k' = None" by (simp add: map_of_eq_None_iff)
  with 2 show ?case by (auto simp: rev_image_eqI)
next
  case (3 k' v tbl)
  then show ?case by (auto simp: rev_image_eqI)
qed

lemma puts_present:
  "distinct (map fst tbl) \<Longrightarrow> fst ` set b \<inter> fst ` set tbl = {} \<Longrightarrow>
     puts tbl b = b @ present tbl"
proof (induction tbl arbitrary: b rule: present.induct)
  case 1
  then show ?case by simp
next
  case (2 k tbl)
  then show ?case by (simp add: put_def)
next
  case (3 k v tbl)
  from 3(3) have fresh: "k \<notin> fst ` set b" by auto
  have "fst ` set (b @ [(k, v)]) \<inter> fst ` set tbl = {}"
    using 3(2,3) by (auto simp: rev_image_eqI)
  with 3 fresh show ?case by (simp add: put_def set_prop_fresh)
qed

lemma put_string_put: "put_string k v b = put k (str_val v) b"
  by (simp add: put_string_def put_def str_val_def split: option.splits)

lemma put_number_put: "put_number k v b = put k (num_val v) b"
  by (simp add: put_number_def put_def num_val_def split: option.splits)

lemma put_recipients_put: "put_recipients k v b = put k (recipients_val v) b"
  by (simp add: put_recipients_def put_def recipients_val_def split: option.splits)

lemma put_json_ok:
  "\<not> malformed parse v \<Longrightarrow> put_json parse k fieldName idx v b = Inr (put k (json_val parse v) b)"
  by (auto simp: put_json_def malformed_def put_def json_val_def parseOptionalJson_def
      split: option.splits)

lemma put_json_malformed:
  "malformed parse v \<Longrightarrow> put_json parse k fieldName idx v b =
     Inl (NodeOperationError
       ([CHR 0x22] @ fieldName @ [CHR 0x22] @ '' must be valid JSON when provided.'') idx)"
  by (auto simp: put_json_def malformed_def parseOptionalJson_def split: option.splits)

lemma put_json_error:
  "put_json parse k fieldName idx v b = Inl e \<Longrightarrow> malformed parse v \<and> itemIndex e = idx"
  by (auto simp: put_json_def malformed_def parseOptionalJson_def split: option.splits if_splits)

lemma send_body_puts:
  assumes "\<not> malformed parse (metadataJson (additionalFields p))"
    "\<not> malformed parse (substitutionDataJson (additionalFields p))"
    "\<not> malformed parse (optionsJson (additionalFields p))"
    "\<not> malformed parse (attachmentsJson (additionalFields p))"
  shows "send_body parse p (splitRecipientList (to_input p)) idx
           = Inr (puts (optional_fields parse p) (required_fields p))"
  using assms
  by (simp add: send_body_def Let_def put_string_put put_number_put put_recipients_put
      put_json_ok optional_fields_def required_fields_def)

lemma distinct_optional_fields: "distinct (map fst (optional_fields parse p))"
  by (simp add: optional_fields_def)

lemma send_body_valid:
  assumes "valid_send parse p"
  shows "send_body parse p (splitRecipientList (to_input p)) idx
           = Inr (required_fields p @ present (optional_fields parse p))"
proof -
  have "fst ` set (required_fields p) \<inter> fst ` set (optional_fields parse p) = {}"
    by (simp add: required_fields_def optional_fields_def)
  then have "puts (optional_fields parse p) (required_fields p)
      = required_fields p @ present (optional_fields parse p)"
    using distinct_optional_fields by (rule puts_present [rotated])
  with assms show ?thesis by (simp add: send_body_puts valid_send_def)
qed

lemma send_valid:
  assumes "valid_send parse p"
  shows "email_send srv parse p idx w =
     ((case srv w (send_request parse p) of
         Inl msg \<Rightarrow> Inl (NodeApiError msg idx)
       | Inr response \<Rightarrow> Inr [\<lparr> json = JObj response, pairedItem = idx \<rparr>]),
      w @ [send_request parse p])"
proof -
  have ne: "required_fields p @ present (optional_fields parse p) \<noteq> []"
    by (simp add: required_fields_def)
  from assms have c: "\<not> (html p = [] \<and> text_body p = [] \<and> templateSlug p = [])"
    and r: "splitRecipientList (to_input p) \<noteq> []"
    by (auto simp: valid_send_def)
  show ?thesis
    using c r ne
    by (simp add: email_send_def Let_def send_body_valid [OF assms] lettrApiRequest_def
        send_request_def split: sum.splits)
qed

lemma map_of_body:
  assumes "(k, ov) \<in> set (optional_fields parse p)"
  shows "map_of (required_fields p @ present (optional_fields parse p)) k = ov"
proof -
  from assms have "k \<in> fst ` set (optional_fields parse p)" by (rule rev_image_eqI) simp
  then have "k \<notin> fst ` set (required_fields p)"
    by (auto simp: required_fields_def optional_fields_def)
  then have "map_of (required_fields p) k = None" by (simp add: map_of_eq_None_iff)
  then show ?thesis
    using map_of_present [OF distinct_optional_fields assms]
    by (simp add: map_add_def map_of_append split: option.splits)
qed

text \<open>
  C7 (as amended). For every valid send input (one of HTML, Text and Template Slug set, at
  least one parsed recipient, every filled-in JSON field well formed) exactly one request
  is made, \<open>POST /emails\<close>, and its body is the three required fields followed by exactly
  the optional fields whose input is truthy (a string that is not empty, a number that is
  not zero), in the order of the source: each optional field is in the body with its
  value when its input is truthy and absent otherwise. \<open>cc\<close> and \<open>bcc\<close> are split by
  \<open>splitRecipientList\<close>, as \<open>to\<close> is.
\<close>

theorem send_body_holds_truthy_fields:
  "valid_send parse p \<longrightarrow>
     email_send srv parse p idx w =
       ((case srv w (send_request parse p) of
           Inl msg \<Rightarrow> Inl (NodeApiError msg idx)
         | Inr response \<Rightarrow> Inr [\<lparr> json = JObj response, pairedItem = idx \<rparr>]),
        w @ [send_request parse p])
     \<and> body (send_request parse p) = Some (required_fields p @ present (optional_fields parse p))
     \<and> (\<forall>(k, ov)\<in>set (optional_fields parse p).
           map_of (required_fields p @ present (optional_fields parse p)) k = ov)"
  using send_valid [of parse p srv idx w] map_of_body [of _ _ parse p]
  by (auto simp: send_request_def)

lemma valid_sample: "valid_send braces_parser sample_send"
  by (simp add: valid_send_def sample_send_def blank_item_def no_fields_def malformed_def
        braces_parser_def splitRecipientList_def trim_def is_separator_def is_whitespace_def)

theorem send_body_holds_truthy_fields_witness:
  "valid_send braces_parser sample_send \<and>
   email_send accepting_server braces_parser sample_send 0 [] =
     (Inr [\<lparr> json = JObj [(''message'', JStr ''queued'')], pairedItem = 0 \<rparr>],
      [\<lparr> http_method = ''POST'', baseURL = LETTR_BASE_URL, url = ''/emails'', json_flag = True,
         body = Some [(''from'', JStr ''me@x.com''),
                      (''to'', JArr [JStr ''a@x.com'', JStr ''b@x.com'']),
                      (''subject'', JStr ''Hi''),
                      (''html'', JStr ''<b>hi</b>''),
                      (''from_name'', JStr ''Ann''),
                      (''campaign_id'', JNum 7),
                      (''cc'', JArr [JStr ''c@x.com'', JStr ''d@x.com'']),
                      (''metadata'', JObj [])],
         qs = None \<rparr>])"
proof -
  have v: "valid_send braces_parser sample_send" by (rule valid_sample)
  have r: "required_fields sample_send = [(''from'', JStr ''me@x.com''),
                      (''to'', JArr [JStr ''a@x.com'', JStr ''b@x.com'']),
                      (''subject'', JStr ''Hi'')]"
    by (simp add: required_fields_def sample_send_def blank_item_def 
        splitRecipientList_def trim_def is_separator_def is_whitespace_def)
  have o: "present (optional_fields braces_parser sample_send) = [
                      (''html'', JStr ''<b>hi</b>''),
                      (''from_name'', JStr ''Ann''),
                      (''campaign_id'', JNum 7),
                      (''cc'', JArr [JStr ''c@x.com'', JStr ''d@x.com'']),
                      (''metadata'', JObj [])]"
    by (simp add: optional_fields_def sample_send_def blank_item_def no_fields_def
        str_val_def num_val_def recipients_val_def json_val_def braces_parser_def
        splitRecipientList_def trim_def is_separator_def is_whitespace_def)
  show ?thesis
    using send_body_holds_truthy_fields [of braces_parser sample_send accepting_server 0 "[]"] v
    by (simp add: send_request_def r o accepting_server_def)
qed

text \<open>
  The claim as the specification words it fails: a campaign id supplied as 0 is left out
  of the body.
\<close>

theorem supplied_zero_field_is_dropped:
  "campaignId (additionalFields zero_campaign_send) = Some 0 \<and>
   valid_send braces_parser zero_campaign_send \<and>
   snd (email_send accepting_server braces_parser zero_campaign_send 0 []) =
     [\<lparr> http_method = ''POST'', baseURL = LETTR_BASE_URL, url = ''/emails'', json_flag = True,
        body = Some [(''from'', JStr ''me@x.com''),
                     (''to'', JArr [JStr ''a@x.com'']),
                     (''subject'', JStr ''Hi''),
                     (''html'', JStr ''hi'')],
        qs = None \<rparr>]"
proof -
  have v: "valid_send braces_parser zero_campaign_send"
    by (simp add: valid_send_def zero_campaign_send_def blank_item_def no_fields_def malformed_def
        splitRecipientList_def trim_def is_separator_def is_whitespace_def)
  have r: "required_fields zero_campaign_send = [(''from'', JStr ''me@x.com''),
                     (''to'', JArr [JStr ''a@x.com'']),
                     (''subject'', JStr ''Hi'')]"
    by (simp add: required_fields_def zero_campaign_send_def blank_item_def
        splitRecipientList_def trim_def is_separator_def is_whitespace_def)
  have o: "present (optional_fields braces_parser zero_campaign_send) = [(''html'', JStr ''hi'')]"
    by (simp add: optional_fields_def zero_campaign_send_def blank_item_def no_fields_def
        str_val_def num_val_def recipients_val_def json_val_def)
  have c: "campaignId (additionalFields zero_campaign_send) = Some 0"
    by (simp add: zero_campaign_send_def no_fields_def)
  show ?thesis
    using send_valid [OF v, of accepting_server 0 "[]"] c v
    by (simp add: send_request_def r o)
qed

lemma send_no_content:
  "html p = [] \<and> text_body p = [] \<and> templateSlug p = [] \<Longrightarrow>
     email_send srv parse p idx w =
       (Inl (NodeOperationError ''Provide at least one of: HTML, Text, or Template Slug.'' idx), w)"
  by (simp add: email_send_def)

lemma send_no_recipient:
  "\<not> (html p = [] \<and> text_body p = [] \<and> templateSlug p = []) \<Longrightarrow>
   splitRecipientList (to_input p) = [] \<Longrightarrow>
     email_send srv parse p idx w =
       (Inl (NodeOperationError
          ([CHR 0x22] @ ''To'' @ [CHR 0x22] @ '' must contain at least one valid recipient.'')
          idx), w)"
  by (simp add: email_send_def)

lemma send_body_malformed:
  assumes "malformed parse (metadataJson (additionalFields p)) \<or>
      malformed parse (substitutionDataJson (additionalFields p)) \<or>
      malformed parse (optionsJson (additionalFields p)) \<or>
      malformed parse (attachmentsJson (additionalFields p))"
  shows "\<exists>fieldName\<in>set json_field_names.
      send_body parse p to_list idx = Inl (NodeOperationError (json_error_message fieldName) idx)"
proof (cases "malformed parse (metadataJson (additionalFields p))")
  case True
  then show ?thesis
    by (simp add: send_body_def Let_def put_json_malformed json_field_names_def
        json_error_message_def)
next
  case m: False
  show ?thesis
  proof (cases "malformed parse (substitutionDataJson (additionalFields p))")
    case True
    with m show ?thesis
      by (simp add: send_body_def Let_def put_json_malformed put_json_ok json_field_names_def
          json_error_message_def)
  next
    case s: False
    show ?thesis
    proof (cases "malformed parse (optionsJson (additionalFields p))")
      case True
      with m s show ?thesis
        by (simp add: send_body_def Let_def put_json_malformed put_json_ok json_field_names_def
            json_error_message_def)
    next
      case False
      with m s assms have "malformed parse (attachmentsJson (additionalFields p))" by simp
      with m s False show ?thesis
        by (simp add: send_body_def Let_def put_json_malformed put_json_ok json_field_names_def
            json_error_message_def)
    qed
  qed
qed

lemma send_body_error:
  "send_body parse p to_list idx = Inl e \<Longrightarrow>
     itemIndex e = idx \<and>
     (malformed parse (metadataJson (additionalFields p)) \<or>
      malformed parse (substitutionDataJson (additionalFields p)) \<or>
      malformed parse (optionsJson (additionalFields p)) \<or>
      malformed parse (attachmentsJson (additionalFields p)))"
  unfolding send_body_def Let_def
  by (auto split: sum.splits dest: put_json_error)

lemma send_operation_error:
  assumes "email_send srv parse p idx w = (Inl (NodeOperationError msg i), w')"
  shows "i = idx \<and> w' = w \<and> \<not> valid_send parse p"
proof (cases "valid_send parse p")
  case True
  from assms show ?thesis
    unfolding send_valid [OF True] by (simp split: sum.splits)
next
  case False
  show ?thesis
  proof (cases "html p = [] \<and> text_body p = [] \<and> templateSlug p = []")
    case True
    with assms False show ?thesis by (simp add: send_no_content)
  next
    case c: False
    show ?thesis
    proof (cases "splitRecipientList (to_input p) = []")
      case True
      with assms False c show ?thesis by (simp add: send_no_recipient)
    next
      case r: False
      with c False have "malformed parse (metadataJson (additionalFields p)) \<or>
        malformed parse (substitutionDataJson (additionalFields p)) \<or>
        malformed parse (optionsJson (additionalFields p)) \<or>
        malformed parse (attachmentsJson (additionalFields p))"
        by (auto simp: valid_send_def)
      from send_body_malformed [OF this, of "splitRecipientList (to_input p)" idx]
      obtain f where "send_body parse p (splitRecipientList (to_input p)) idx
          = Inl (NodeOperationError (json_error_message f) idx)" by blast
      with assms c r False show ?thesis by (simp add: email_send_def)
    qed
  qed
qed

lemma send_malformed:
  assumes "\<not> (html p = [] \<and> text_body p = [] \<and> templateSlug p = [])"
    and "splitRecipientList (to_input p) \<noteq> []"
    and "malformed parse (metadataJson (additionalFields p)) \<or>
      malformed parse (substitutionDataJson (additionalFields p)) \<or>
      malformed parse (optionsJson (additionalFields p)) \<or>
      malformed parse (attachmentsJson (additionalFields p))"
  shows "\<exists>fieldName\<in>set json_field_names.
      email_send srv parse p idx w =
        (Inl (NodeOperationError (json_error_message fieldName) idx), w)"
proof -
  from send_body_malformed [OF assms(3), of "splitRecipientList (to_input p)" idx]
  obtain f where f: "f \<in> set json_field_names"
    and "send_body parse p (splitRecipientList (to_input p)) idx
          = Inl (NodeOperationError (json_error_message f) idx)" by blast
  with assms(1,2) have "email_send srv parse p idx w =
        (Inl (NodeOperationError (json_error_message f) idx), w)"
    by (auto simp: email_send_def)
  with f show ?thesis by blast
qed

text \<open>
  C5. Each validation failure of send (no HTML, Text or Template Slug; no recipient left
  after parsing; a filled-in JSON field that does not parse) raises a
  \<open>NodeOperationError\<close> that carries the index of the item, and the history of requests
  is unchanged: no request was made for the item. Conversely such an error comes from
  nothing but a validation failure.
\<close>

theorem send_validation_before_request:
  "(html p = [] \<and> text_body p = [] \<and> templateSlug p = [] \<longrightarrow>
      email_send srv parse p idx w =
        (Inl (NodeOperationError ''Provide at least one of: HTML, Text, or Template Slug.'' idx), w))
   \<and> (\<not> (html p = [] \<and> text_body p = [] \<and> templateSlug p = []) \<and>
      splitRecipientList (to_input p) = [] \<longrightarrow>
      email_send srv parse p idx w =
        (Inl (NodeOperationError
           ([CHR 0x22] @ ''To'' @ [CHR 0x22] @ '' must contain at least one valid recipient.'')
           idx), w))
   \<and> (\<not> (html p = [] \<and> text_body p = [] \<and> templateSlug p = []) \<and>
      splitRecipientList (to_input p) \<noteq> [] \<and>
      (malformed parse (metadataJson (additionalFields p)) \<or>
       malformed parse (substitutionDataJson (additionalFields p)) \<or>
       malformed parse (optionsJson (additionalFields p)) \<or>
       malformed parse (attachmentsJson (additionalFields p))) \<longrightarrow>
      (\<exists>fieldName\<in>set json_field_names.
         email_send srv parse p idx w =
           (Inl (NodeOperationError (json_error_message fieldName) idx), w)))
   \<and> (email_send srv parse p idx w = (Inl (NodeOperationError msg i), w') \<longrightarrow>
        i = idx \<and> w' = w \<and> \<not> valid_send parse p)"
  using send_no_content [of p srv parse idx w] send_no_recipient [of p srv parse idx w]
    send_malformed [of p parse srv idx w] send_operation_error [of srv parse p idx w msg i w']
  by blast

theorem send_validation_before_request_witness:
  "email_send accepting_server braces_parser blank_item 3 [] =
     (Inl (NodeOperationError ''Provide at least one of: HTML, Text, or Template Slug.'' 3), [])
   \<and> \<not> valid_send braces_parser blank_item
   \<and> splitRecipientList (to_input (blank_item \<lparr> html := ''hi'', to_input := '' ; , '' \<rparr>)) = []
   \<and> email_send accepting_server braces_parser
        (blank_item \<lparr> html := ''hi'', to_input := '' ; , '' \<rparr>) 3 [] =
     (Inl (NodeOperationError
        ([CHR 0x22] @ ''To'' @ [CHR 0x22] @ '' must contain at least one valid recipient.'') 3), [])
   \<and> malformed braces_parser (metadataJson (additionalFields
        (blank_item \<lparr> html := ''hi'', to_input := ''a@x.com'',
           additionalFields := no_fields \<lparr> metadataJson := Some ''{oops'' \<rparr> \<rparr>)))
   \<and> (\<exists>fieldName\<in>set json_field_names.
        email_send accepting_server braces_parser
          (blank_item \<lparr> html := ''hi'', to_input := ''a@x.com'',
             additionalFields := no_fields \<lparr> metadataJson := Some ''{oops'' \<rparr> \<rparr>) 3 [] =
        (Inl (NodeOperationError (json_error_message fieldName) 3), []))"
proof -
  have a: "email_send accepting_server braces_parser blank_item 3 [] =
     (Inl (NodeOperationError ''Provide at least one of: HTML, Text, or Template Slug.'' 3), [])"
    by (rule send_validation_before_request [THEN conjunct1, THEN mp])
      (simp add: blank_item_def)
  have b: "\<not> valid_send braces_parser blank_item"
    using send_validation_before_request
      [THEN conjunct2, THEN conjunct2, THEN conjunct2, THEN mp, OF a]
    by simp
  have s: "splitRecipientList '' ; , '' = []"
    by (simp add: splitRecipientList_def trim_def is_separator_def is_whitespace_def)
  have c: "email_send accepting_server braces_parser
        (blank_item \<lparr> html := ''hi'', to_input := '' ; , '' \<rparr>) 3 [] =
     (Inl (NodeOperationError
        ([CHR 0x22] @ ''To'' @ [CHR 0x22] @ '' must contain at least one valid recipient.'') 3), [])"
    by (rule send_validation_before_request [THEN conjunct2, THEN conjunct1, THEN mp])
      (simp add: s)
  have t: "splitRecipientList ''a@x.com'' \<noteq> []"
    by (simp add: splitRecipientList_def trim_def is_separator_def is_whitespace_def)
  have m: "malformed braces_parser (metadataJson (additionalFields
        (blank_item \<lparr> html := ''hi'', to_input := ''a@x.com'',
           additionalFields := no_fields \<lparr> metadataJson := Some ''{oops'' \<rparr> \<rparr>)))"
    by (simp add: malformed_def braces_parser_def)
  have d: "\<exists>fieldName\<in>set json_field_names.
        email_send accepting_server braces_parser
          (blank_item \<lparr> html := ''hi'', to_input := ''a@x.com'',
             additionalFields := no_fields \<lparr> metadataJson := Some ''{oops'' \<rparr> \<rparr>) 3 [] =
        (Inl (NodeOperationError (json_error_message fieldName) 3), [])"
    by (rule send_validation_before_request
          [THEN conjunct2, THEN conjunct2, THEN conjunct1, THEN mp])
      (simp add: t malformed_def braces_parser_def)
  from a b c d m s show ?thesis by simp
qed

section \<open>Domains and webhooks: properties\<close>

lemma map_of_set_prop: "map_of (set_prop k v b) k' = (if k' = k then Some v else map_of b k')"
  by (induction b) auto

lemma set_prop_not_empty: "set_prop k v b \<noteq> []"
  by (cases b) (auto split: if_splits)

lemma getResponseList_set_data:
  "getResponseList (set_prop ''data'' (JObj (set_prop key (JArr xs) d)) response) key = xs"
  by (simp add: getResponseList_def getResponseData_def map_of_set_prop)

lemma slice0_take: "0 \<le> e \<Longrightarrow> slice0 xs e = take (nat e) xs"
  by (simp add: slice0_def)

lemma unpaged_request:
  "snd (unpaged_getAll endpoint key srv p idx w) = w @ [list_request endpoint]"
  by (simp add: unpaged_getAll_def lettrApiRequest_def list_request_def Let_def
      split: sum.splits)

lemma unpaged_simplified:
  assumes "srv w (list_request endpoint) = Inr response" "\<not> returnAll p" "0 \<le> limit p"
    "simplify p"
  shows "fst (unpaged_getAll endpoint key srv p idx w)
           = Inr (records_of idx (take (nat (limit p)) (getResponseList response key)))"
  using assms
  by (simp add: unpaged_getAll_def lettrApiRequest_def list_request_def Let_def slice0_take)

lemma unpaged_envelope:
  assumes "srv w (list_request endpoint) = Inr response" "\<not> returnAll p" "0 \<le> limit p"
    "\<not> simplify p"
  shows "\<exists>env. fst (unpaged_getAll endpoint key srv p idx w)
             = Inr [\<lparr> json = JObj env, pairedItem = idx \<rparr>] \<and>
           getResponseList env key = take (nat (limit p)) (getResponseList response key)"
  using assms
  by (simp add: unpaged_getAll_def lettrApiRequest_def list_request_def Let_def slice0_take
      getResponseList_set_data)

lemma unpaged_all:
  assumes "srv w (list_request endpoint) = Inr response" "returnAll p" "simplify p"
  shows "fst (unpaged_getAll endpoint key srv p idx w)
           = Inr (records_of idx (getResponseList response key))"
  using assms
  by (simp add: unpaged_getAll_def lettrApiRequest_def list_request_def Let_def)

lemma unpaged_at_most_limit:
  assumes "unpaged_getAll endpoint key srv p idx w = (Inr recs, w')" "\<not> returnAll p"
    "0 \<le> limit p" "simplify p"
  shows "length recs \<le> nat (limit p)"
  using assms
  by (auto simp: unpaged_getAll_def lettrApiRequest_def Let_def slice0_take records_of_def
      split: sum.splits)

text \<open>
  C4. A domain or webhook listing makes exactly one request, \<open>GET /domains\<close> or
  \<open>GET /webhooks\<close>, without body and without query, whatever \<open>returnAll\<close> and \<open>limit\<close>
  are: the limit does not reach the request. With \<open>returnAll = false\<close> and a limit that
  is not negative the fetched list is cut to its first \<open>limit\<close> entries, unchanged and
  in the order of the answer: one record per kept entry when \<open>simplify\<close> holds, and
  otherwise one envelope whose list is the kept entries.
\<close>

theorem unpaged_getAll_truncates_client_side:
  "snd (domain_getAll srv p idx w) = w @ [list_request ''/domains'']
   \<and> snd (webhook_getAll srv p idx w) = w @ [list_request ''/webhooks'']
   \<and> (srv w (list_request ''/domains'') = Inr response \<and> \<not> returnAll p \<and> 0 \<le> limit p \<longrightarrow>
        (simplify p \<longrightarrow>
           fst (domain_getAll srv p idx w)
             = Inr (records_of idx (take (nat (limit p)) (getResponseList response ''domains''))))
      \<and> (\<not> simplify p \<longrightarrow>
           (\<exists>env. fst (domain_getAll srv p idx w) = Inr [\<lparr> json = JObj env, pairedItem = idx \<rparr>] \<and>
              getResponseList env ''domains''
                = take (nat (limit p)) (getResponseList response ''domains''))))
   \<and> (srv w (list_request ''/webhooks'') = Inr response \<and> \<not> returnAll p \<and> 0 \<le> limit p \<longrightarrow>
        (simplify p \<longrightarrow>
           fst (webhook_getAll srv p idx w)
             = Inr (records_of idx (take (nat (limit p)) (getResponseList response ''webhooks''))))
      \<and> (\<not> simplify p \<longrightarrow>
           (\<exists>env. fst (webhook_getAll srv p idx w) = Inr [\<lparr> json = JObj env, pairedItem = idx \<rparr>] \<and>
              getResponseList env ''webhooks''
                = take (nat (limit p)) (getResponseList response ''webhooks''))))"
  unfolding domain_getAll_def webhook_getAll_def
  using unpaged_request [of "''/domains''" "''domains''" srv p idx w]
    unpaged_request [of "''/webhooks''" "''webhooks''" srv p idx w]
    unpaged_simplified [of srv w "''/domains''" response p "''domains''" idx]
    unpaged_simplified [of srv w "''/webhooks''" response p "''webhooks''" idx]
    unpaged_envelope [of srv w "''/domains''" response p "''domains''" idx]
    unpaged_envelope [of srv w "''/webhooks''" response p "''webhooks''" idx]
  by blast

theorem unpaged_getAll_truncates_client_side_witness:
  "domain_getAll five_item_server
       (blank_item \<lparr> resource := ''domain'', operation := ''getAll'', limit := 2 \<rparr>) 0 []
     = (Inr [\<lparr> json = entry 1, pairedItem = 0 \<rparr>, \<lparr> json = entry 2, pairedItem = 0 \<rparr>],
        [list_request ''/domains''])"
proof -
  let ?p = "blank_item \<lparr> resource := ''domain'', operation := ''getAll'', limit := 2 \<rparr>"
  have l: "getResponseList
      [(''data'', JObj [(''domains'', JArr [entry 1, entry 2, entry 3, entry 4, entry 5]),
                           (''total'', JNum 5)])] ''domains''
      = [entry 1, entry 2, entry 3, entry 4, entry 5]"
    by (simp add: getResponseList_def getResponseData_def)
  have h: "five_item_server [] (list_request ''/domains'')
      = Inr [(''data'', JObj [(''domains'', JArr [entry 1, entry 2, entry 3, entry 4, entry 5]),
                           (''total'', JNum 5)])]"
    by (simp add: five_item_server_def)
  have p: "\<not> returnAll ?p" "0 \<le> limit ?p" "simplify ?p" "nat (limit ?p) = Suc (Suc 0)"
    by (simp_all add: blank_item_def)
  note t = unpaged_getAll_truncates_client_side [of five_item_server ?p 0 "[]" _]
  have a: "snd (domain_getAll five_item_server ?p 0 []) = [list_request ''/domains'']"
    using t [THEN conjunct1] by simp
  have b: "fst (domain_getAll five_item_server ?p 0 [])
      = Inr (records_of 0 (take (nat (limit ?p)) [entry 1, entry 2, entry 3, entry 4, entry 5]))"
    using t [THEN conjunct2, THEN conjunct2, THEN conjunct1, THEN mp, THEN conjunct1, THEN mp]
      h p(1-3) l by simp
  show ?thesis
    using a b by (simp add: prod_eq_iff p(4) records_of_def)
qed

section \<open>Exhaustive cursor fetch: properties\<close>

lemma email_page_qs_not_empty: "email_page_qs queryBase cur \<noteq> []"
  by (simp add: email_page_qs_def Let_def set_prop_not_empty split: option.splits)

lemma emails_api_request:
  "lettrApiRequest srv ''GET'' ''/emails'' idx [] (email_page_qs queryBase cur) w =
     ((case srv w (emails_request queryBase cur) of
         Inl msg \<Rightarrow> Inl (NodeApiError msg idx)
       | Inr response \<Rightarrow> Inr response),
      w @ [emails_request queryBase cur])"
  by (simp add: lettrApiRequest_def emails_request_def email_page_qs_not_empty Let_def
      split: sum.splits)

lemma fetch_stops:
  assumes "srv w (emails_request queryBase cur) = Inr r" "\<not> truthy_opt (next_cursor r)"
  shows "email_fetch_all srv queryBase idx entries cur w =
     Some (Inr (entries @ getResponseList r ''emails''), w @ [emails_request queryBase cur])"
  using assms by (subst email_fetch_all.simps) (simp add: emails_api_request)

lemma fetch_continues:
  assumes "srv w (emails_request queryBase cur) = Inr r" "truthy_opt (next_cursor r)"
  shows "email_fetch_all srv queryBase idx entries cur w =
     email_fetch_all srv queryBase idx (entries @ getResponseList r ''emails'') (next_cursor r)
       (w @ [emails_request queryBase cur])"
  using assms by (subst email_fetch_all.simps) (simp add: emails_api_request)

lemma fetch_fails:
  assumes "srv w (emails_request queryBase cur) = Inl msg"
  shows "email_fetch_all srv queryBase idx entries cur w =
     Some (Inl (NodeApiError msg idx), w @ [emails_request queryBase cur])"
  using assms by (subst email_fetch_all.simps) (simp add: emails_api_request)

lemma cursor_run:
  "served srv w (cursor_requests queryBase cur rs) rs \<Longrightarrow> cursors_end_at_last rs \<Longrightarrow>
     email_fetch_all srv queryBase idx entries cur w =
       Some (Inr (entries @ concat (map (\<lambda>r. getResponseList r ''emails'') rs)),
             w @ cursor_requests queryBase cur rs)"
proof (induction rs arbitrary: w cur entries rule: cursors_end_at_last.induct)
  case 1
  then show ?case by simp
next
  case (2 r)
  then show ?case by (simp add: fetch_stops)
next
  case (3 r r' rs)
  from 3(2) have s: "srv w (emails_request queryBase cur) = Inr r"
    and rest: "served srv (w @ [emails_request queryBase cur])
        (cursor_requests queryBase (next_cursor r) (r' # rs)) (r' # rs)"
    by simp_all
  from 3(3) have t: "truthy_opt (next_cursor r)" and e: "cursors_end_at_last (r' # rs)"
    by simp_all
  have "email_fetch_all srv queryBase idx entries cur w =
      email_fetch_all srv queryBase idx (entries @ getResponseList r ''emails'') (next_cursor r)
        (w @ [emails_request queryBase cur])"
    using s t by (rule fetch_continues)
  also have "\<dots> = Some (Inr ((entries @ getResponseList r ''emails'') @
        concat (map (\<lambda>r. getResponseList r ''emails'') (r' # rs))),
      (w @ [emails_request queryBase cur]) @
        cursor_requests queryBase (next_cursor r) (r' # rs))"
    using rest e by (rule "3.IH")
  finally show ?case by simp
qed

lemma request_carries_cursor:
  "truthy_opt cur \<Longrightarrow> map_of (email_page_qs queryBase cur) ''cursor'' = cur"
  by (cases cur) (simp_all add: email_page_qs_def Let_def map_of_set_prop)

lemma request_per_page: "map_of (email_page_qs queryBase cur) ''per_page'' = Some (JNum 100)"
  by (simp add: email_page_qs_def Let_def map_of_set_prop split: option.splits)

lemma cursor_requests_length: "length (cursor_requests queryBase cur rs) = length rs"
  by (induction rs arbitrary: cur) simp_all


lemma next_cursor_emails_page:
  "next_cursor (emails_page es (Some (c # cs))) = Some (JStr (c # cs))"
  "next_cursor (emails_page es None) = None"
  by (simp_all add: next_cursor_def getPagination_def getResponseData_def emails_page_def)

lemma getResponseList_emails_page: "getResponseList (emails_page es cur) ''emails'' = es"
  by (simp add: getResponseList_def getResponseData_def emails_page_def)

lemma three_pages_served:
  "served three_page_server []
     (cursor_requests [] None
        [emails_page [entry 1, entry 2] (Some ''c1''),
         emails_page [entry 3, entry 4] (Some ''c2''),
         emails_page [entry 5] None])
     [emails_page [entry 1, entry 2] (Some ''c1''),
      emails_page [entry 3, entry 4] (Some ''c2''),
      emails_page [entry 5] None]"
  by (simp add: next_cursor_emails_page three_page_server_def emails_request_def
      email_page_qs_def)

lemma three_pages_end:
  "cursors_end_at_last
     [emails_page [entry 1, entry 2] (Some ''c1''),
      emails_page [entry 3, entry 4] (Some ''c2''),
      emails_page [entry 5] None]"
  by (simp add: next_cursor_emails_page)

lemma three_page_requests:
  "cursor_requests [] None
        [emails_page [entry 1, entry 2] (Some ''c1''),
         emails_page [entry 3, entry 4] (Some ''c2''),
         emails_page [entry 5] None]
   = [\<lparr> http_method = ''GET'', baseURL = LETTR_BASE_URL, url = ''/emails'', json_flag = True,
         body = None, qs = Some [(''per_page'', JNum 100)] \<rparr>,
      \<lparr> http_method = ''GET'', baseURL = LETTR_BASE_URL, url = ''/emails'', json_flag = True,
         body = None, qs = Some [(''per_page'', JNum 100), (''cursor'', JStr ''c1'')] \<rparr>,
      \<lparr> http_method = ''GET'', baseURL = LETTR_BASE_URL, url = ''/emails'', json_flag = True,
         body = None, qs = Some [(''per_page'', JNum 100), (''cursor'', JStr ''c2'')] \<rparr>]"
  by (simp add: next_cursor_emails_page emails_request_def email_page_qs_def)

lemma email_getAll_requests:
  assumes "returnAll p"
  shows "map_option snd (email_getAll srv p idx w) =
     map_option snd (email_fetch_all srv (email_queryBase p) idx [] (starting_cursor p) w)"
  using assms
  by (simp add: email_getAll_def starting_cursor_def Let_def
      split: option.splits prod.splits sum.splits)

text \<open>
  C1. The exhaustive email fetch sends one \<open>GET /emails\<close> per page with
  \<open>per_page = 100\<close>; the first request carries the starting cursor if there is one, each
  later request the \<open>next_cursor\<close> of the answer before it; the requests of the operation
  are those of this loop; and when the provider
  answers a run of pages of which only the last lacks a truthy \<open>next_cursor\<close>, the loop
  returns after exactly that many requests with the entries of all pages, in the order
  of the answers. A cursor that is absent, null or the empty string ends the loop, and
  a string that is not empty continues it.
\<close>

theorem exhaustive_cursor_fetch:
  "(served srv w (cursor_requests queryBase cur rs) rs \<and> cursors_end_at_last rs \<longrightarrow>
      email_fetch_all srv queryBase idx entries cur w =
        Some (Inr (entries @ concat (map (\<lambda>r. getResponseList r ''emails'') rs)),
              w @ cursor_requests queryBase cur rs)
      \<and> length (cursor_requests queryBase cur rs) = length rs)
   \<and> http_method (emails_request queryBase cur) = ''GET''
   \<and> url (emails_request queryBase cur) = ''/emails''
   \<and> map_of (email_page_qs queryBase cur) ''per_page'' = Some (JNum 100)
   \<and> (truthy_opt cur \<longrightarrow> map_of (email_page_qs queryBase cur) ''cursor'' = cur)
   \<and> (next_cursor r = None \<or> next_cursor r = Some (JStr []) \<longrightarrow> \<not> truthy_opt (next_cursor r))
   \<and> (next_cursor r = Some (JStr (c # cs)) \<longrightarrow> truthy_opt (next_cursor r))
   \<and> (returnAll p \<longrightarrow>
        map_option snd (email_getAll srv p idx w) =
        map_option snd (email_fetch_all srv (email_queryBase p) idx [] (starting_cursor p) w))"
proof (intro conjI impI)
  assume a: "served srv w (cursor_requests queryBase cur rs) rs \<and> cursors_end_at_last rs"
  then show "email_fetch_all srv queryBase idx entries cur w =
        Some (Inr (entries @ concat (map (\<lambda>r. getResponseList r ''emails'') rs)),
              w @ cursor_requests queryBase cur rs)"
    by (intro cursor_run) simp_all
  show "length (cursor_requests queryBase cur rs) = length rs"
    by (rule cursor_requests_length)
next
  show "http_method (emails_request queryBase cur) = ''GET''"
    and "url (emails_request queryBase cur) = ''/emails''"
    by (simp_all add: emails_request_def)
  show "map_of (email_page_qs queryBase cur) ''per_page'' = Some (JNum 100)"
    by (rule request_per_page)
next
  assume "truthy_opt cur"
  then show "map_of (email_page_qs queryBase cur) ''cursor'' = cur"
    by (rule request_carries_cursor)
next
  assume "next_cursor r = None \<or> next_cursor r = Some (JStr [])"
  then show "\<not> truthy_opt (next_cursor r)" by auto
next
  assume "next_cursor r = Some (JStr (c # cs))"
  then show "truthy_opt (next_cursor r)" by simp
next
  assume "returnAll p"
  then show "map_option snd (email_getAll srv p idx w) =
        map_option snd (email_fetch_all srv (email_queryBase p) idx [] (starting_cursor p) w)"
    by (rule email_getAll_requests)
qed

theorem exhaustive_cursor_fetch_witness:
  "email_fetch_all three_page_server [] 0 [] None [] =
     Some (Inr [entry 1, entry 2, entry 3, entry 4, entry 5],
       [\<lparr> http_method = ''GET'', baseURL = LETTR_BASE_URL, url = ''/emails'', json_flag = True,
           body = None, qs = Some [(''per_page'', JNum 100)] \<rparr>,
        \<lparr> http_method = ''GET'', baseURL = LETTR_BASE_URL, url = ''/emails'', json_flag = True,
           body = None, qs = Some [(''per_page'', JNum 100), (''cursor'', JStr ''c1'')] \<rparr>,
        \<lparr> http_method = ''GET'', baseURL = LETTR_BASE_URL, url = ''/emails'', json_flag = True,
           body = None, qs = Some [(''per_page'', JNum 100), (''cursor'', JStr ''c2'')] \<rparr>])
   \<and> served three_page_server []
     (cursor_requests [] None
        [emails_page [entry 1, entry 2] (Some ''c1''),
         emails_page [entry 3, entry 4] (Some ''c2''),
         emails_page [entry 5] None])
     [emails_page [entry 1, entry 2] (Some ''c1''),
      emails_page [entry 3, entry 4] (Some ''c2''),
      emails_page [entry 5] None]
   \<and> cursors_end_at_last
     [emails_page [entry 1, entry 2] (Some ''c1''),
      emails_page [entry 3, entry 4] (Some ''c2''),
      emails_page [entry 5] None]"
proof -
  have "email_fetch_all three_page_server [] 0 [] None [] =
        Some (Inr ([] @ concat (map (\<lambda>r. getResponseList r ''emails'')
                [emails_page [entry 1, entry 2] (Some ''c1''),
                 emails_page [entry 3, entry 4] (Some ''c2''),
                 emails_page [entry 5] None])),
              [] @ cursor_requests [] None
                [emails_page [entry 1, entry 2] (Some ''c1''),
                 emails_page [entry 3, entry 4] (Some ''c2''),
                 emails_page [entry 5] None])"
    using exhaustive_cursor_fetch [THEN conjunct1, THEN mp, THEN conjunct1,
        OF conjI, OF three_pages_served three_pages_end]
    by blast
  then have "email_fetch_all three_page_server [] 0 [] None [] =
     Some (Inr [entry 1, entry 2, entry 3, entry 4, entry 5],
       [\<lparr> http_method = ''GET'', baseURL = LETTR_BASE_URL, url = ''/emails'', json_flag = True,
           body = None, qs = Some [(''per_page'', JNum 100)] \<rparr>,
        \<lparr> http_method = ''GET'', baseURL = LETTR_BASE_URL, url = ''/emails'', json_flag = True,
           body = None, qs = Some [(''per_page'', JNum 100), (''cursor'', JStr ''c1'')] \<rparr>,
        \<lparr> http_method = ''GET'', baseURL = LETTR_BASE_URL, url = ''/emails'', json_flag = True,
           body = None, qs = Some [(''per_page'', JNum 100), (''cursor'', JStr ''c2'')] \<rparr>])"
    unfolding three_page_requests by (simp add: getResponseList_emails_page)
  with three_pages_served three_pages_end show ?thesis by (intro conjI)
qed

section \<open>Single pages and the shape of the output: properties\<close>

lemma email_single_page:
  assumes "\<not> returnAll p" "simplify p"
  shows "email_getAll srv p idx w =
     Some (answered srv w (email_page_request p) idx
             (\<lambda>response. records_of idx (getResponseList response ''emails'')))"
  using assms
  by (simp add: email_getAll_def Let_def lettrApiRequest_def answered_def email_page_request_def
      set_prop_not_empty split: sum.splits)

lemma template_single_page:
  assumes "\<not> returnAll p" "simplify p"
  shows "template_getAll srv coerce p idx w =
     Some (answered srv w (template_page_request p) idx
             (\<lambda>response. records_of idx (getResponseList response ''templates'')))"
  using assms
  by (simp add: template_getAll_def Let_def lettrApiRequest_def answered_def
      template_page_request_def set_prop_not_empty split: sum.splits)

lemma email_page_request_per_page:
  "\<exists>q. qs (email_page_request p) = Some q \<and> map_of q ''per_page'' = Some (JNum (limit p))"
  by (simp add: email_page_request_def Let_def map_of_set_prop)

lemma template_page_request_per_page:
  "\<exists>q. qs (template_page_request p) = Some q \<and> map_of q ''per_page'' = Some (JNum (limit p))"
  by (simp add: template_page_request_def map_of_set_prop)

lemma length_records_of: "length (records_of idx xs) = length xs"
  by (simp add: records_of_def)

lemma json_records_of: "map json (records_of idx xs) = xs"
  by (simp add: records_of_def comp_def)

lemma paired_records_of: "\<forall>r\<in>set (records_of idx xs). pairedItem r = idx"
  by (simp add: records_of_def)

text \<open>
  C9 (as amended). With \<open>returnAll = false\<close> the email and the template listing make
  one request that carries the limit as \<open>per_page\<close>, and with \<open>simplify\<close> they give
  one record per entry of the list in the answer: the number of records is the number
  of entries the provider returned, so it stays within the limit when the provider
  honours \<open>per_page\<close>. The domain and the webhook listing cut the list themselves and
  never give more than \<open>limit\<close> records, for every answer.
\<close>

theorem single_page_sends_limit_as_page_size:
  "(\<not> returnAll p \<and> simplify p \<longrightarrow>
      email_getAll srv p idx w =
        Some (answered srv w (email_page_request p) idx
                (\<lambda>response. records_of idx (getResponseList response ''emails'')))
      \<and> template_getAll srv coerce p idx w =
        Some (answered srv w (template_page_request p) idx
                (\<lambda>response. records_of idx (getResponseList response ''templates''))))
   \<and> (\<exists>q. qs (email_page_request p) = Some q \<and> map_of q ''per_page'' = Some (JNum (limit p)))
   \<and> (\<exists>q. qs (template_page_request p) = Some q \<and> map_of q ''per_page'' = Some (JNum (limit p)))
   \<and> length (records_of idx xs) = length xs
   \<and> (\<not> returnAll p \<and> simplify p \<and> 0 \<le> limit p \<longrightarrow>
        (domain_getAll srv p idx w = (Inr recs, w') \<longrightarrow> length recs \<le> nat (limit p))
      \<and> (webhook_getAll srv p idx w = (Inr recs, w') \<longrightarrow> length recs \<le> nat (limit p)))"
  using email_single_page [of p srv idx w] template_single_page [of p srv coerce idx w]
    email_page_request_per_page [of p] template_page_request_per_page [of p]
    length_records_of [of idx xs]
    unpaged_at_most_limit [of "''/domains''" "''domains''" srv p idx w recs w']
    unpaged_at_most_limit [of "''/webhooks''" "''webhooks''" srv p idx w recs w']
  unfolding domain_getAll_def webhook_getAll_def
  by blast

lemma one_email_item_flags:
  "\<not> returnAll one_email_item" "simplify one_email_item" "limit one_email_item = 1"
  by (simp_all add: one_email_item_def blank_item_def)

lemma one_email_request:
  "email_page_request one_email_item =
     \<lparr> http_method = ''GET'', baseURL = LETTR_BASE_URL, url = ''/emails'', json_flag = True,
       body = None, qs = Some [(''per_page'', JNum 1)] \<rparr>"
  by (simp add: email_page_request_def one_email_item_def blank_item_def email_queryBase_def)

lemma two_emails_listed:
  "getResponseList [(''data'', JObj [(''emails'', JArr [entry 1, entry 2])])] ''emails''
     = [entry 1, entry 2]"
  by (simp add: getResponseList_def getResponseData_def)

theorem single_page_sends_limit_as_page_size_witness:
  "email_getAll two_email_server one_email_item 0 [] =
     Some (Inr [\<lparr> json = entry 1, pairedItem = 0 \<rparr>, \<lparr> json = entry 2, pairedItem = 0 \<rparr>],
       [\<lparr> http_method = ''GET'', baseURL = LETTR_BASE_URL, url = ''/emails'', json_flag = True,
           body = None, qs = Some [(''per_page'', JNum 1)] \<rparr>])"
proof -
  have "email_getAll two_email_server one_email_item 0 [] =
        Some (answered two_email_server [] (email_page_request one_email_item) 0
                (\<lambda>response. records_of 0 (getResponseList response ''emails'')))"
    using single_page_sends_limit_as_page_size [THEN conjunct1, THEN mp, THEN conjunct1,
        OF conjI, OF one_email_item_flags(1,2)]
    by blast
  then show ?thesis
    unfolding one_email_request
    by (simp add: answered_def two_email_server_def two_emails_listed records_of_def)
qed

text \<open>
  The claim as the specification words it fails for a provider that returns more than
  it was asked for: limit 1, two records.
\<close>

theorem single_page_may_exceed_limit:
  "limit one_email_item = 1 \<and> \<not> returnAll one_email_item \<and> simplify one_email_item \<and>
   email_getAll two_email_server one_email_item 0 [] =
     Some (Inr [\<lparr> json = entry 1, pairedItem = 0 \<rparr>, \<lparr> json = entry 2, pairedItem = 0 \<rparr>],
       [email_page_request one_email_item])"
proof -
  have "email_getAll two_email_server one_email_item 0 [] =
        Some (answered two_email_server [] (email_page_request one_email_item) 0
                (\<lambda>response. records_of 0 (getResponseList response ''emails'')))"
    using one_email_item_flags(1,2) by (rule email_single_page)
  then have "email_getAll two_email_server one_email_item 0 [] =
     Some (Inr [\<lparr> json = entry 1, pairedItem = 0 \<rparr>, \<lparr> json = entry 2, pairedItem = 0 \<rparr>],
       [email_page_request one_email_item])"
    by (simp add: answered_def two_email_server_def two_emails_listed records_of_def)
  with one_email_item_flags show ?thesis by simp
qed

lemma email_exhaustive:
  assumes "returnAll p"
    "email_fetch_all srv (email_queryBase p) idx [] (starting_cursor p) w = Some (Inr entries, w')"
  shows "email_getAll srv p idx w =
     Some (Inr (if simplify p then records_of idx entries
                else [\<lparr> json = JObj (synthesized_envelope ''emails'' entries),
                         pairedItem = idx \<rparr>]), w')"
  using assms
  by (simp add: email_getAll_def Let_def starting_cursor_def synthesized_envelope_def)

lemma synthesized_envelope_list:
  "getResponseList (synthesized_envelope key entries) key = entries"
  by (simp add: synthesized_envelope_def getResponseList_def getResponseData_def)

lemma synthesized_envelope_pagination:
  "get_prop (getResponseData (synthesized_envelope ''emails'' entries)) ''pagination'' = None"
  by (simp add: synthesized_envelope_def getResponseData_def)

text \<open>
  C3. When the exhaustive email fetch returns the accumulated entries, \<open>simplify = false\<close>
  gives exactly one record, \<open>{data: {emails: entries}}\<close>, an envelope in which no
  pagination object is left, and \<open>simplify = true\<close> gives exactly one record per entry,
  in the order of the entries, each paired to the item.
\<close>

theorem exhaustive_fetch_output_shape:
  "(returnAll p \<and>
    email_fetch_all srv (email_queryBase p) idx [] (starting_cursor p) w = Some (Inr entries, w')
    \<longrightarrow>
      (\<not> simplify p \<longrightarrow>
         email_getAll srv p idx w =
           Some (Inr [\<lparr> json = JObj [(''data'', JObj [(''emails'', JArr entries)])],
                        pairedItem = idx \<rparr>], w'))
    \<and> (simplify p \<longrightarrow>
         email_getAll srv p idx w = Some (Inr (records_of idx entries), w')))
   \<and> length (records_of idx entries) = length entries
   \<and> map json (records_of idx entries) = entries
   \<and> (\<forall>r\<in>set (records_of idx entries). pairedItem r = idx)
   \<and> get_prop (getResponseData [(''data'', JObj [(''emails'', JArr entries)])]) ''pagination''
       = None"
  using email_exhaustive [of p srv idx w entries w'] length_records_of [of idx entries]
    json_records_of [of idx entries] paired_records_of [of idx entries]
    synthesized_envelope_pagination [of entries]
  by (simp add: synthesized_envelope_def)


lemma three_page_fetch:
  "email_fetch_all three_page_server [] idx [] None [] =
     Some (Inr [entry 1, entry 2, entry 3, entry 4, entry 5],
       [emails_request [] None, emails_request [] (Some (JStr ''c1'')),
        emails_request [] (Some (JStr ''c2''))])"
  using cursor_run [OF three_pages_served three_pages_end, of idx "[]"]
  by (simp add: getResponseList_emails_page next_cursor_emails_page)

lemma all_emails_item_fetch:
  "email_queryBase (all_emails_item \<lparr> simplify := b \<rparr>) = []"
  "starting_cursor (all_emails_item \<lparr> simplify := b \<rparr>) = None"
  "returnAll (all_emails_item \<lparr> simplify := b \<rparr>)"
  "simplify (all_emails_item \<lparr> simplify := b \<rparr>) = b"
  by (simp_all add: all_emails_item_def blank_item_def email_queryBase_def starting_cursor_def)

theorem exhaustive_fetch_output_shape_witness:
  "email_getAll three_page_server (all_emails_item \<lparr> simplify := False \<rparr>) 7 [] =
     Some (Inr [\<lparr> json = JObj [(''data'',
                    JObj [(''emails'', JArr [entry 1, entry 2, entry 3, entry 4, entry 5])])],
                  pairedItem = 7 \<rparr>],
           [emails_request [] None, emails_request [] (Some (JStr ''c1'')),
            emails_request [] (Some (JStr ''c2''))])
   \<and> email_getAll three_page_server (all_emails_item \<lparr> simplify := True \<rparr>) 7 [] =
     Some (Inr [\<lparr> json = entry 1, pairedItem = 7 \<rparr>, \<lparr> json = entry 2, pairedItem = 7 \<rparr>,
                \<lparr> json = entry 3, pairedItem = 7 \<rparr>, \<lparr> json = entry 4, pairedItem = 7 \<rparr>,
                \<lparr> json = entry 5, pairedItem = 7 \<rparr>],
           [emails_request [] None, emails_request [] (Some (JStr ''c1'')),
            emails_request [] (Some (JStr ''c2''))])"
proof -
  have f: "email_fetch_all three_page_server
      (email_queryBase (all_emails_item \<lparr> simplify := b \<rparr>)) 7 []
      (starting_cursor (all_emails_item \<lparr> simplify := b \<rparr>)) [] =
     Some (Inr [entry 1, entry 2, entry 3, entry 4, entry 5],
       [emails_request [] None, emails_request [] (Some (JStr ''c1'')),
        emails_request [] (Some (JStr ''c2''))])" for b
    by (simp only: all_emails_item_fetch three_page_fetch)
  note t = exhaustive_fetch_output_shape [THEN conjunct1, THEN mp, OF conjI,
      OF all_emails_item_fetch(3) f]
  have a: "email_getAll three_page_server (all_emails_item \<lparr> simplify := False \<rparr>) 7 [] =
     Some (Inr [\<lparr> json = JObj [(''data'',
                    JObj [(''emails'', JArr [entry 1, entry 2, entry 3, entry 4, entry 5])])],
                  pairedItem = 7 \<rparr>],
           [emails_request [] None, emails_request [] (Some (JStr ''c1'')),
            emails_request [] (Some (JStr ''c2''))])"
    using t [of False, THEN conjunct1] by (simp add: all_emails_item_fetch)
  have b: "email_getAll three_page_server (all_emails_item \<lparr> simplify := True \<rparr>) 7 [] =
     Some (Inr (records_of 7 [entry 1, entry 2, entry 3, entry 4, entry 5]),
           [emails_request [] None, emails_request [] (Some (JStr ''c1'')),
            emails_request [] (Some (JStr ''c2''))])"
    using t [of True, THEN conjunct2] by (simp add: all_emails_item_fetch)
  from a b show ?thesis by (simp add: records_of_def)
qed

section \<open>Exhaustive page fetch: properties\<close>

lemma template_page_qs_not_empty: "template_page_qs queryBase page \<noteq> []"
  by (simp add: template_page_qs_def set_prop_not_empty)

lemma templates_api_request:
  "lettrApiRequest srv ''GET'' ''/templates'' idx [] (template_page_qs queryBase page) w =
     ((case srv w (templates_request queryBase page) of
         Inl msg \<Rightarrow> Inl (NodeApiError msg idx)
       | Inr response \<Rightarrow> Inr response),
      w @ [templates_request queryBase page])"
  by (simp add: lettrApiRequest_def templates_request_def template_page_qs_not_empty Let_def
      split: sum.splits)

lemma pages_stop:
  assumes "srv w (templates_request queryBase page) = Inr r" "\<not> hasMore_of coerce r page"
  shows "template_fetch_all srv coerce queryBase idx entries page w =
     Some (Inr (entries @ getResponseList r ''templates''),
           w @ [templates_request queryBase page])"
  using assms by (subst template_fetch_all.simps) (simp add: templates_api_request)

lemma pages_continue:
  assumes "srv w (templates_request queryBase page) = Inr r" "hasMore_of coerce r page"
  shows "template_fetch_all srv coerce queryBase idx entries page w =
     template_fetch_all srv coerce queryBase idx (entries @ getResponseList r ''templates'')
       (next_page coerce r page) (w @ [templates_request queryBase page])"
  using assms by (subst template_fetch_all.simps) (simp add: templates_api_request)

lemma pages_fail:
  assumes "srv w (templates_request queryBase page) = Inl msg"
  shows "template_fetch_all srv coerce queryBase idx entries page w =
     Some (Inl (NodeApiError msg idx), w @ [templates_request queryBase page])"
  using assms by (subst template_fetch_all.simps) (simp add: templates_api_request)

lemma page_run:
  "served srv w (page_requests coerce queryBase page rs) rs \<Longrightarrow>
   pages_end_at_last coerce page rs \<Longrightarrow>
     template_fetch_all srv coerce queryBase idx entries page w =
       Some (Inr (entries @ concat (map (\<lambda>r. getResponseList r ''templates'') rs)),
             w @ page_requests coerce queryBase page rs)"
proof (induction coerce page rs arbitrary: w entries rule: pages_end_at_last.induct)
  case (1 coerce page)
  then show ?case by simp
next
  case (2 coerce page r)
  then show ?case by (simp add: pages_stop)
next
  case (3 coerce page r r' rs)
  from 3(2) have s: "srv w (templates_request queryBase page) = Inr r"
    and rest: "served srv (w @ [templates_request queryBase page])
        (page_requests coerce queryBase (next_page coerce r page) (r' # rs)) (r' # rs)"
    by simp_all
  from 3(3) have t: "hasMore_of coerce r page"
    and e: "pages_end_at_last coerce (next_page coerce r page) (r' # rs)"
    by simp_all
  have "template_fetch_all srv coerce queryBase idx entries page w =
      template_fetch_all srv coerce queryBase idx (entries @ getResponseList r ''templates'')
        (next_page coerce r page) (w @ [templates_request queryBase page])"
    using s t by (rule pages_continue)
  also have "\<dots> = Some (Inr ((entries @ getResponseList r ''templates'') @
        concat (map (\<lambda>r. getResponseList r ''templates'') (r' # rs))),
      (w @ [templates_request queryBase page]) @
        page_requests coerce queryBase (next_page coerce r page) (r' # rs))"
    using rest e by (rule "3.IH")
  finally show ?case by simp
qed

lemma page_requests_length: "length (page_requests coerce queryBase page rs) = length rs"
  by (induction rs arbitrary: page) simp_all

lemma request_page: "map_of (template_page_qs queryBase page) ''page'' = Some (JNum page)"
  by (simp add: template_page_qs_def map_of_set_prop)

lemma request_per_page_templates:
  "map_of (template_page_qs queryBase page) ''per_page'' = Some (JNum 100)"
  by (simp add: template_page_qs_def map_of_set_prop)

lemma to_double_safe: "\<bar>x\<bar> \<le> 2 ^ 53 \<Longrightarrow> to_double x = x"
  by (simp add: to_double_def Let_def)

lemma to_double_succ: "\<bar>c\<bar> < 2 ^ 53 \<Longrightarrow> to_double (c + 1) = c + 1"
  by (rule to_double_safe) simp

lemma reported_pages:
  assumes "get_prop (getPagination r) ''current_page'' = Some (JNum c)"
    "get_prop (getPagination r) ''last_page'' = Some (JNum l)"
  shows "hasMore_of coerce r page = (c < l)" "next_page coerce r page = to_double (c + 1)"
  using assms
  by (simp_all add: hasMore_of_def next_page_def currentPage_of_def lastPage_of_def
      to_Number_def)

lemma stops_paging_no_more: "stops_paging coerce r \<Longrightarrow> \<not> hasMore_of coerce r page"
  by (auto simp: stops_paging_def hasMore_of_def currentPage_of_def lastPage_of_def
      split: option.splits)

lemma defaults_without_pages:
  assumes "nullish (get_prop (getPagination r) ''current_page'') = None"
    "nullish (get_prop (getPagination r) ''last_page'') = None"
  shows "currentPage_of coerce r page = Some page" "lastPage_of coerce r page = Some page"
    "\<not> hasMore_of coerce r page" "stops_paging coerce r"
  using assms
  by (simp_all add: hasMore_of_def currentPage_of_def lastPage_of_def stops_paging_def)

lemma no_pagination_object:
  assumes "nullish (get_prop (getResponseData r) ''pagination'') = None"
  shows "nullish (get_prop (getPagination r) ''current_page'') = None"
    "nullish (get_prop (getPagination r) ''last_page'') = None"
  using assms by (simp_all add: getPagination_def)

lemma pages_terminate:
  assumes final: "\<forall>h q r. N \<le> length h \<and> srv h q = Inr r \<longrightarrow> stops_paging coerce r"
  shows "\<exists>res w'. template_fetch_all srv coerce queryBase idx entries page w = Some (res, w') \<and>
           length w' \<le> max N (length w) + 1"
proof (induction "N - length w" arbitrary: w entries page rule: less_induct)
  case less
  let ?q = "templates_request queryBase page"
  show ?case
  proof (cases "srv w ?q")
    case (Inl msg)
    then show ?thesis by (simp add: pages_fail)
  next
    case (Inr r)
    show ?thesis
    proof (cases "hasMore_of coerce r page")
      case False
      with Inr show ?thesis by (simp add: pages_stop)
    next
      case True
      then have "\<not> stops_paging coerce r" using stops_paging_no_more by blast
      with final Inr have short: "length w < N" by (meson not_le)
      then have "N - length (w @ [?q]) < N - length w" by simp
      from less [OF this]
      obtain res w' where
        "template_fetch_all srv coerce queryBase idx (entries @ getResponseList r ''templates'')
           (next_page coerce r page) (w @ [?q]) = Some (res, w')"
        and "length w' \<le> max N (length (w @ [?q])) + 1"
        by blast
      with short Inr True show ?thesis by (simp add: pages_continue)
    qed
  qed
qed


lemma template_getAll_requests:
  assumes "returnAll p"
  shows "map_option snd (template_getAll srv coerce p idx w) =
     map_option snd (template_fetch_all srv coerce (template_queryBase p) idx []
        (max 1 (templatePage p)) w)"
  using assms
  by (simp add: template_getAll_def Let_def split: option.splits prod.splits sum.splits)

lemma templates_page_reports:
  "hasMore_of coerce (templates_page ts c l) page = (c < l)"
  "next_page coerce (templates_page ts c l) page = to_double (c + 1)"
  "getResponseList (templates_page ts c l) ''templates'' = ts"
  by (simp_all add: hasMore_of_def next_page_def currentPage_of_def lastPage_of_def
      to_Number_def getPagination_def getResponseData_def getResponseList_def
      templates_page_def)

lemma to_double_small: "to_double 2 = 2" "to_double 3 = 3"
  by code_simp+

lemma next_page_rounds:
  "next_page coerce (templates_page ts 9007199254740992 9007199254741000) page
     = 9007199254740992"
proof -
  have "to_double 9007199254740993 = 9007199254740992" by code_simp
  then show ?thesis by (simp add: templates_page_reports)
qed

lemma three_template_requests:
  "page_requests coerce [] 1
     [templates_page [entry 1] 1 3, templates_page [entry 2] 2 3, templates_page [entry 3] 3 3]
   = [\<lparr> http_method = ''GET'', baseURL = LETTR_BASE_URL, url = ''/templates'', json_flag = True,
         body = None, qs = Some [(''per_page'', JNum 100), (''page'', JNum 1)] \<rparr>,
      \<lparr> http_method = ''GET'', baseURL = LETTR_BASE_URL, url = ''/templates'', json_flag = True,
         body = None, qs = Some [(''per_page'', JNum 100), (''page'', JNum 2)] \<rparr>,
      \<lparr> http_method = ''GET'', baseURL = LETTR_BASE_URL, url = ''/templates'', json_flag = True,
         body = None, qs = Some [(''per_page'', JNum 100), (''page'', JNum 3)] \<rparr>]"
  by (simp add: templates_page_reports to_double_small templates_request_def
      template_page_qs_def)

lemma three_templates_served:
  "served paged_templates_server []
     (page_requests coerce [] 1
        [templates_page [entry 1] 1 3, templates_page [entry 2] 2 3,
         templates_page [entry 3] 3 3])
     [templates_page [entry 1] 1 3, templates_page [entry 2] 2 3, templates_page [entry 3] 3 3]"
  unfolding three_template_requests by (simp add: paged_templates_server_def)

lemma three_templates_end:
  "pages_end_at_last coerce 1
     [templates_page [entry 1] 1 3, templates_page [entry 2] 2 3, templates_page [entry 3] 3 3]"
  by (simp add: templates_page_reports to_double_small)

text \<open>
  C2. The exhaustive template fetch sends one \<open>GET /templates\<close> per page with
  \<open>per_page = 100\<close> and the page number; when the answer reports \<open>current_page\<close> and
  \<open>last_page\<close>, the loop goes on exactly if \<open>current_page < last_page\<close>, and the next
  request asks for the reported \<open>current_page + 1\<close>, whatever page was asked for
  before: the sum is JavaScript's, a double, which is \<open>current_page + 1\<close> itself for
  every page number below \<open>2^53\<close> in absolute value and the nearest double beyond
  (for a reported \<open>2^53\<close> the same page again). When the provider answers a run of pages of which only the last has
  \<open>current_page >= last_page\<close>, the loop returns after exactly that many requests with
  the entries of all pages in order. The requests of the operation are those of the loop
  started at \<open>max(1, templatePage)\<close>.
\<close>

theorem exhaustive_page_fetch:
  "(served srv w (page_requests coerce queryBase page rs) rs \<and>
    pages_end_at_last coerce page rs \<longrightarrow>
      template_fetch_all srv coerce queryBase idx entries page w =
        Some (Inr (entries @ concat (map (\<lambda>r. getResponseList r ''templates'') rs)),
              w @ page_requests coerce queryBase page rs)
      \<and> length (page_requests coerce queryBase page rs) = length rs)
   \<and> http_method (templates_request queryBase page) = ''GET''
   \<and> url (templates_request queryBase page) = ''/templates''
   \<and> map_of (template_page_qs queryBase page) ''page'' = Some (JNum page)
   \<and> map_of (template_page_qs queryBase page) ''per_page'' = Some (JNum 100)
   \<and> (get_prop (getPagination r) ''current_page'' = Some (JNum c) \<and>
      get_prop (getPagination r) ''last_page'' = Some (JNum l) \<longrightarrow>
        hasMore_of coerce r page = (c < l) \<and>
        next_page coerce r page = to_double (c + 1) \<and>
        (\<bar>c\<bar> < 2 ^ 53 \<longrightarrow> next_page coerce r page = c + 1))
   \<and> (returnAll p \<longrightarrow>
        map_option snd (template_getAll srv coerce p idx w) =
        map_option snd (template_fetch_all srv coerce (template_queryBase p) idx []
           (max 1 (templatePage p)) w))"
proof (intro conjI impI)
  assume a: "served srv w (page_requests coerce queryBase page rs) rs \<and>
    pages_end_at_last coerce page rs"
  then show "template_fetch_all srv coerce queryBase idx entries page w =
        Some (Inr (entries @ concat (map (\<lambda>r. getResponseList r ''templates'') rs)),
              w @ page_requests coerce queryBase page rs)"
    by (intro page_run) simp_all
  show "length (page_requests coerce queryBase page rs) = length rs"
    by (rule page_requests_length)
next
  show "http_method (templates_request queryBase page) = ''GET''"
    and "url (templates_request queryBase page) = ''/templates''"
    by (simp_all add: templates_request_def)
  show "map_of (template_page_qs queryBase page) ''page'' = Some (JNum page)"
    by (rule request_page)
  show "map_of (template_page_qs queryBase page) ''per_page'' = Some (JNum 100)"
    by (rule request_per_page_templates)
next
  assume a: "get_prop (getPagination r) ''current_page'' = Some (JNum c) \<and>
      get_prop (getPagination r) ''last_page'' = Some (JNum l)"
  then show "hasMore_of coerce r page = (c < l)" by (intro reported_pages) simp_all
  from a show n: "next_page coerce r page = to_double (c + 1)"
    by (intro reported_pages) simp_all
  assume "\<bar>c\<bar> < 2 ^ 53"
  then show "next_page coerce r page = c + 1"
    unfolding n by (rule to_double_succ)
next
  assume "returnAll p"
  then show "map_option snd (template_getAll srv coerce p idx w) =
        map_option snd (template_fetch_all srv coerce (template_queryBase p) idx []
           (max 1 (templatePage p)) w)"
    by (rule template_getAll_requests)
qed

theorem exhaustive_page_fetch_witness:
  "template_fetch_all paged_templates_server no_coercion [] 0 [] 1 [] =
     Some (Inr [entry 1, entry 2, entry 3],
       [\<lparr> http_method = ''GET'', baseURL = LETTR_BASE_URL, url = ''/templates'', json_flag = True,
           body = None, qs = Some [(''per_page'', JNum 100), (''page'', JNum 1)] \<rparr>,
        \<lparr> http_method = ''GET'', baseURL = LETTR_BASE_URL, url = ''/templates'', json_flag = True,
           body = None, qs = Some [(''per_page'', JNum 100), (''page'', JNum 2)] \<rparr>,
        \<lparr> http_method = ''GET'', baseURL = LETTR_BASE_URL, url = ''/templates'', json_flag = True,
           body = None, qs = Some [(''per_page'', JNum 100), (''page'', JNum 3)] \<rparr>])
   \<and> served paged_templates_server []
     (page_requests no_coercion [] 1
        [templates_page [entry 1] 1 3, templates_page [entry 2] 2 3,
         templates_page [entry 3] 3 3])
     [templates_page [entry 1] 1 3, templates_page [entry 2] 2 3, templates_page [entry 3] 3 3]
   \<and> pages_end_at_last no_coercion 1
     [templates_page [entry 1] 1 3, templates_page [entry 2] 2 3, templates_page [entry 3] 3 3]
   \<and> next_page no_coercion (templates_page [] 9007199254740992 9007199254741000) 1
       = 9007199254740992"
proof -
  have "template_fetch_all paged_templates_server no_coercion [] 0 [] 1 [] =
        Some (Inr ([] @ concat (map (\<lambda>r. getResponseList r ''templates'')
                [templates_page [entry 1] 1 3, templates_page [entry 2] 2 3,
                 templates_page [entry 3] 3 3])),
              [] @ page_requests no_coercion [] 1
                [templates_page [entry 1] 1 3, templates_page [entry 2] 2 3,
                 templates_page [entry 3] 3 3])"
    using exhaustive_page_fetch [THEN conjunct1, THEN mp, THEN conjunct1,
        OF conjI, OF three_templates_served three_templates_end]
    by blast
  then have "template_fetch_all paged_templates_server no_coercion [] 0 [] 1 [] =
     Some (Inr [entry 1, entry 2, entry 3],
       [\<lparr> http_method = ''GET'', baseURL = LETTR_BASE_URL, url = ''/templates'', json_flag = True,
           body = None, qs = Some [(''per_page'', JNum 100), (''page'', JNum 1)] \<rparr>,
        \<lparr> http_method = ''GET'', baseURL = LETTR_BASE_URL, url = ''/templates'', json_flag = True,
           body = None, qs = Some [(''per_page'', JNum 100), (''page'', JNum 2)] \<rparr>,
        \<lparr> http_method = ''GET'', baseURL = LETTR_BASE_URL, url = ''/templates'', json_flag = True,
           body = None, qs = Some [(''per_page'', JNum 100), (''page'', JNum 3)] \<rparr>])"
    unfolding three_template_requests by (simp add: templates_page_reports)
  with three_templates_served three_templates_end next_page_rounds
  show ?thesis by (intro conjI)
qed

text \<open>
  C10. An answer without \<open>current_page\<close> makes \<open>currentPage\<close> the page that was asked
  for, and an answer without \<open>last_page\<close> makes \<open>lastPage\<close> equal to \<open>currentPage\<close>; an
  answer without a pagination object has neither, so both are the page that was asked
  for. An answer without \<open>last_page\<close> therefore ends the loop: it returns after that
  request. Hence the exhaustive template fetch
  always returns when, from some number of requests on, every successful answer reports
  \<open>current_page >= last_page\<close> or has no \<open>last_page\<close>; and it makes at most one request
  more than that number.
\<close>

theorem page_fetch_terminates:
  "(nullish (get_prop (getPagination r) ''current_page'') = None \<longrightarrow>
      currentPage_of coerce r page = Some page)
   \<and> (nullish (get_prop (getPagination r) ''last_page'') = None \<longrightarrow>
        lastPage_of coerce r page = currentPage_of coerce r page \<and> stops_paging coerce r)
   \<and> (nullish (get_prop (getResponseData r) ''pagination'') = None \<longrightarrow>
        currentPage_of coerce r page = Some page \<and> lastPage_of coerce r page = Some page \<and>
        stops_paging coerce r)
   \<and> (srv w (templates_request queryBase page) = Inr r \<and> stops_paging coerce r \<longrightarrow>
        template_fetch_all srv coerce queryBase idx entries page w =
          Some (Inr (entries @ getResponseList r ''templates''),
                w @ [templates_request queryBase page]))
   \<and> ((\<forall>h q a. N \<le> length h \<and> srv h q = Inr a \<longrightarrow> stops_paging coerce a) \<longrightarrow>
        (\<exists>res w'. template_fetch_all srv coerce queryBase idx entries page w = Some (res, w') \<and>
           length w' \<le> max N (length w) + 1))"
proof (intro conjI impI)
  assume "nullish (get_prop (getPagination r) ''current_page'') = None"
  then show "currentPage_of coerce r page = Some page"
    by (simp add: currentPage_of_def)
next
  assume l: "nullish (get_prop (getPagination r) ''last_page'') = None"
  then show "lastPage_of coerce r page = currentPage_of coerce r page"
    by (simp add: lastPage_of_def)
  from l show "stops_paging coerce r"
    by (simp add: stops_paging_def)
next
  assume "nullish (get_prop (getResponseData r) ''pagination'') = None"
  then have n: "nullish (get_prop (getPagination r) ''current_page'') = None"
    "nullish (get_prop (getPagination r) ''last_page'') = None"
    by (rule no_pagination_object)+
  show "currentPage_of coerce r page = Some page" using n by (rule defaults_without_pages)
  show "lastPage_of coerce r page = Some page" using n by (rule defaults_without_pages)
  show "stops_paging coerce r" using n by (rule defaults_without_pages)
next
  assume "srv w (templates_request queryBase page) = Inr r \<and> stops_paging coerce r"
  then show "template_fetch_all srv coerce queryBase idx entries page w =
          Some (Inr (entries @ getResponseList r ''templates''),
                w @ [templates_request queryBase page])"
    using stops_paging_no_more [of coerce r page] by (intro pages_stop) simp_all
next
  assume "\<forall>h q a. N \<le> length h \<and> srv h q = Inr a \<longrightarrow> stops_paging coerce a"
  then show "\<exists>res w'. template_fetch_all srv coerce queryBase idx entries page w = Some (res, w') \<and>
           length w' \<le> max N (length w) + 1"
    by (rule pages_terminate)
qed

lemma settling_server_settles:
  "\<forall>h q a. 2 \<le> length h \<and> settling_server h q = Inr a \<longrightarrow> stops_paging no_coercion a"
  by (auto simp: settling_server_def stops_paging_def getPagination_def getResponseData_def)

lemma bare_page_reports:
  "hasMore_of coerce [(''data'', JObj [(''templates'', JArr ts)])] page = False"
  "getResponseList [(''data'', JObj [(''templates'', JArr ts)])] ''templates'' = ts"
  by (simp_all add: hasMore_of_def currentPage_of_def lastPage_of_def
      getPagination_def getResponseData_def getResponseList_def)

lemma settling_run:
  "template_fetch_all settling_server no_coercion [] 0 [] 1 [] =
     Some (Inr [entry 0, entry 1, entry 9],
           [templates_request [] 1, templates_request [] 2, templates_request [] 3])"
proof -
  let ?rs = "[templates_page [entry 0] 1 5, templates_page [entry 1] 2 5,
             [(''data'', JObj [(''templates'', JArr [entry 9])])]]"
  have r: "page_requests no_coercion [] 1 ?rs =
      [templates_request [] 1, templates_request [] 2, templates_request [] 3]"
    by (simp add: templates_page_reports to_double_small)
  have s: "served settling_server [] (page_requests no_coercion [] 1 ?rs) ?rs"
    unfolding r by (simp add: settling_server_def)
  have e: "pages_end_at_last no_coercion 1 ?rs"
    by (simp add: templates_page_reports bare_page_reports to_double_small)
  show ?thesis
    using page_run [OF s e, of 0 "[]"] unfolding r
    by (simp add: templates_page_reports bare_page_reports)
qed

theorem page_fetch_terminates_witness:
  "(\<exists>res w'. template_fetch_all settling_server no_coercion [] 0 [] 1 [] = Some (res, w') \<and>
      length w' \<le> 3)
   \<and> template_fetch_all settling_server no_coercion [] 0 [] 1 [] =
     Some (Inr [entry 0, entry 1, entry 9],
           [templates_request [] 1, templates_request [] 2, templates_request [] 3])"
proof -
  have "\<exists>res w'. template_fetch_all settling_server no_coercion [] 0 [] 1 [] = Some (res, w') \<and>
      length w' \<le> 3"
    using page_fetch_terminates [THEN conjunct2, THEN conjunct2, THEN conjunct2, THEN conjunct2,
        THEN mp,
        OF settling_server_settles, of "[]" 0 "[]" 1 "[]"]
    by simp
  with settling_run show ?thesis by (intro conjI)
qed

section \<open>The item loop: properties\<close>

lemma failed_item_tolerated:
  assumes "process_item srv parse coerce p idx w = Some (Inl e, w1)"
  shows "execute_from srv parse coerce True (p # ps) idx returnData w =
     execute_from srv parse coerce True ps (Suc idx)
       (returnData @ [\<lparr> json = JObj [(''error'', JStr (message e))], pairedItem = idx \<rparr>]) w1"
  using assms by (simp add: error_record_def)

lemma failed_item_aborts:
  assumes "process_item srv parse coerce p idx w = Some (Inl e, w1)"
  shows "execute_from srv parse coerce False (p # ps) idx returnData w = Some (Inl e, w1)"
  using assms by simp

lemma passed_item_continues:
  assumes "process_item srv parse coerce p idx w = Some (Inr recs, w1)"
  shows "execute_from srv parse coerce cof (p # ps) idx returnData w =
     execute_from srv parse coerce cof ps (Suc idx) (returnData @ recs) w1"
  using assms by simp

lemma tolerant_batch:
  "execute_from srv parse coerce True items idx returnData w =
     map_option (\<lambda>(rs, w'). (Inr (returnData @ tolerant_output rs idx), w'))
       (outcomes srv parse coerce items idx w)"
proof (induction items arbitrary: idx returnData w)
  case Nil
  show ?case by simp
next
  case (Cons p ps)
  show ?case
  proof (cases "process_item srv parse coerce p idx w")
    case None
    then show ?thesis by simp
  next
    case (Some a)
    obtain r w1 where a: "a = (r, w1)" by (cases a)
    show ?thesis
    proof (cases r)
      case (Inl e)
      with Some a Cons.IH [of "Suc idx" _ w1] show ?thesis
        by (cases "outcomes srv parse coerce ps (Suc idx) w1")
          (auto simp: error_record_def)
    next
      case (Inr recs)
      with Some a Cons.IH [of "Suc idx" _ w1] show ?thesis
        by (cases "outcomes srv parse coerce ps (Suc idx) w1") auto
    qed
  qed
qed

text \<open>
  C6. When an item fails, with a validation error or a transport error, and
  \<open>continueOnFail()\<close> holds, the loop pushes exactly one record \<open>{error: message}\<close> paired
  to the index of the item and goes on with the next item; when \<open>continueOnFail()\<close> does
  not hold, the failure is the result of the whole batch, the records pushed so far are
  dropped and no later item is processed. An item that succeeds adds its records in
  either mode. So in failure-tolerant mode a batch never aborts: its result is, item by
  item and in order, the records of the item or its one error record.
\<close>

theorem continue_on_fail_captures_errors:
  "(process_item srv parse coerce p idx w = Some (Inl e, w1) \<longrightarrow>
      execute_from srv parse coerce True (p # ps) idx returnData w =
        execute_from srv parse coerce True ps (Suc idx)
          (returnData @ [\<lparr> json = JObj [(''error'', JStr (message e))], pairedItem = idx \<rparr>]) w1
      \<and> execute_from srv parse coerce False (p # ps) idx returnData w = Some (Inl e, w1))
   \<and> (process_item srv parse coerce p idx w = Some (Inr recs, w1) \<longrightarrow>
        execute_from srv parse coerce cof (p # ps) idx returnData w =
          execute_from srv parse coerce cof ps (Suc idx) (returnData @ recs) w1)
   \<and> execute srv parse coerce True items w =
        map_option (\<lambda>(rs, w'). (Inr (tolerant_output rs 0), w'))
          (outcomes srv parse coerce items 0 w)"
  using failed_item_tolerated [of srv parse coerce p idx w e w1 ps returnData]
    failed_item_aborts [of srv parse coerce p idx w e w1 ps returnData]
    passed_item_continues [of srv parse coerce p idx w recs w1 cof ps returnData]
    tolerant_batch [of srv parse coerce items 0 "[]" w]
  by (simp add: execute_def)


lemma process_sample_send:
  "process_item srv braces_parser coerce sample_send idx w =
     Some ((case srv w (send_request braces_parser sample_send) of
              Inl msg \<Rightarrow> Inl (NodeApiError msg idx)
            | Inr response \<Rightarrow> Inr [\<lparr> json = JObj response, pairedItem = idx \<rparr>]),
           w @ [send_request braces_parser sample_send])"
proof -
  have "resource sample_send = ''email''" "operation sample_send = ''send''"
    by (simp_all add: sample_send_def blank_item_def)
  then show ?thesis
    by (simp add: process_item_def send_valid [OF valid_sample])
qed

theorem continue_on_fail_captures_errors_witness:
  "execute failing_once_server braces_parser no_coercion True [sample_send, sample_send] [] =
     Some (Inr [\<lparr> json = JObj [(''error'', JStr ''Bad request'')], pairedItem = 0 \<rparr>,
                \<lparr> json = JObj [(''message'', JStr ''queued'')], pairedItem = 1 \<rparr>],
           [send_request braces_parser sample_send, send_request braces_parser sample_send])
   \<and> execute failing_once_server braces_parser no_coercion False [sample_send, sample_send] [] =
     Some (Inl (NodeApiError ''Bad request'' 0), [send_request braces_parser sample_send])"
proof -
  let ?rq = "send_request braces_parser sample_send"
  have p0: "process_item failing_once_server braces_parser no_coercion sample_send 0 [] =
      Some (Inl (NodeApiError ''Bad request'' 0), [?rq])"
    by (simp add: process_sample_send failing_once_server_def)
  have p1: "process_item failing_once_server braces_parser no_coercion sample_send (Suc 0) [?rq] =
      Some (Inr [\<lparr> json = JObj [(''message'', JStr ''queued'')], pairedItem = Suc 0 \<rparr>],
            [?rq, ?rq])"
    by (simp add: process_sample_send failing_once_server_def)
  note t = continue_on_fail_captures_errors [THEN conjunct1, THEN mp, OF p0]
  have a: "execute_from failing_once_server braces_parser no_coercion True
        [sample_send, sample_send] 0 [] [] =
      execute_from failing_once_server braces_parser no_coercion True [sample_send] (Suc 0)
        ([] @ [\<lparr> json = JObj [(''error'', JStr (message (NodeApiError ''Bad request'' 0)))],
                 pairedItem = 0 \<rparr>]) [?rq]"
    by (rule t [THEN conjunct1])
  have b: "execute_from failing_once_server braces_parser no_coercion False
        [sample_send, sample_send] 0 [] [] = Some (Inl (NodeApiError ''Bad request'' 0), [?rq])"
    by (rule t [THEN conjunct2])
  show ?thesis
    unfolding execute_def a b by (simp add: p1)
qed

end
